theory Spec2Isabelle
  imports Main
begin

section \<open>JavaScript values and \<open>Object.is\<close>\<close>

text \<open>
  Numbers are modelled far enough to tell apart the three cases on which
  \<open>Object.is\<close> and \<open>===\<close> disagree: \<open>NaN\<close>, negative zero, and every other
  number (\<open>JInt 0\<close> is positive zero).
\<close>

datatype jsnum = JNaN | JNegZero | JInt int

datatype jsval = VUndef | VNull | VBool bool | VNum jsnum | VStr string | VObj nat

text \<open>\<open>Object.is\<close> (the SameValue algorithm): used by \<open>RefImpl\<close> and by the proxy setters.\<close>

fun same_value_number :: "jsnum \<Rightarrow> jsnum \<Rightarrow> bool" where
  "same_value_number JNaN JNaN = True"
| "same_value_number JNegZero JNegZero = True"
| "same_value_number (JInt a) (JInt b) = (a = b)"
| "same_value_number _ _ = False"

fun object_is :: "jsval \<Rightarrow> jsval \<Rightarrow> bool" where
  "object_is (VNum a) (VNum b) = same_value_number a b"
| "object_is VUndef VUndef = True"
| "object_is VNull VNull = True"
| "object_is (VBool a) (VBool b) = (a = b)"
| "object_is (VStr a) (VStr b) = (a = b)"
| "object_is (VObj a) (VObj b) = (a = b)"
| "object_is _ _ = False"

text \<open>Strict equality \<open>===\<close>, for contrast: \<open>NaN\<close> differs from itself, the zeros agree.\<close>

fun strict_equals_number :: "jsnum \<Rightarrow> jsnum \<Rightarrow> bool" where
  "strict_equals_number JNaN _ = False"
| "strict_equals_number _ JNaN = False"
| "strict_equals_number JNegZero JNegZero = True"
| "strict_equals_number JNegZero (JInt b) = (b = 0)"
| "strict_equals_number (JInt a) JNegZero = (a = 0)"
| "strict_equals_number (JInt a) (JInt b) = (a = b)"

fun strict_equals :: "jsval \<Rightarrow> jsval \<Rightarrow> bool" where
  "strict_equals (VNum a) (VNum b) = strict_equals_number a b"
| "strict_equals a b = (a = b)"

section \<open>User code\<close>

text \<open>
  The library is higher order: effect bodies, cleanups, schedulers, getters and watch
  callbacks are closures of the caller. A closure is represented by its code, a list of
  calls into the public API, and by what it returns. Cells, computed cells and watch
  bindings are named by numbers chosen by the caller; an effect function is named by the
  number it received when it was created (0, 1, 2, ... in creation order).
\<close>

datatype cmd =
    RefGet nat                        \<comment> \<open>\<open>r.value\<close>\<close>
  | RefSet nat jsval                  \<comment> \<open>\<open>r.value = v\<close>\<close>
  | ComputedGet nat                   \<comment> \<open>\<open>c.value\<close> of a computed cell\<close>
  | Throw                             \<comment> \<open>\<open>throw new Error()\<close>\<close>
  | Batch ufun                        \<comment> \<open>\<open>batch(fn)\<close>\<close>
  | TryCatch "cmd list"               \<comment> \<open>\<open>try { ... } catch (e) {}\<close>\<close>
  | FlushUpdates                      \<comment> \<open>\<open>flushUpdates()\<close>\<close>
  | Effect ufun "ufun option" bool    \<comment> \<open>\<open>effect(update, { scheduler, lazy })\<close>\<close>
  | Stop nat                          \<comment> \<open>the \<open>stop\<close> handle that \<open>effect\<close> returned\<close>
  | Job nat                           \<comment> \<open>the job \<open>() => effect()\<close> that a scheduler received\<close>
  | Computed nat ufun                 \<comment> \<open>\<open>c = computed(getter)\<close>\<close>
  | Watch nat nat ufun bool           \<comment> \<open>\<open>w = watch(r, callback, { immediate })\<close>\<close>
  | WatchEffectBody nat               \<comment> \<open>the arrow function that \<open>watch\<close> passes to \<open>effect\<close>\<close>
  | OnCleanup nat ufun                \<comment> \<open>a watch callback calling its third argument\<close>
  | WatchStop nat                     \<comment> \<open>the stop handle that \<open>watch\<close> returned\<close>
and ufun = Fn "cmd list" ret          \<comment> \<open>\<open>() => { cmds; return ret }\<close>\<close>
and ret =
    RetUndef                          \<comment> \<open>no return value\<close>
  | RetFn ufun                        \<comment> \<open>returns a function (a cleanup)\<close>
  | RetRead nat                       \<comment> \<open>\<open>return r.value\<close>\<close>
  | RetComputed nat                   \<comment> \<open>\<open>return c.value\<close> of a computed cell\<close>
  | RetVal jsval                      \<comment> \<open>returns a constant\<close>

text \<open>What a call returns: a plain value or a function.\<close>

datatype rv = Val jsval | Fun ufun

section \<open>Reactive system state\<close>

datatype target = TRef nat | TComputed nat | TObj nat

type_synonym dep = "target \<times> string"

datatype sched = UserSched ufun | ComputedSched nat

record effect =
  update :: ufun
  is_computed :: bool          \<comment> \<open>built by \<open>createComputedEffect\<close> rather than \<open>effect\<close>\<close>
  isActive :: bool
  cleanup :: "ufun option"
  deps :: "dep list"
  scheduler :: "sched option"

record computed_ref =
  c_value :: rv
  c_dirty :: bool
  c_isSetting :: bool
  c_runner :: nat

record watch_binding =
  w_source :: nat
  w_callback :: ufun
  w_immediate :: bool
  w_oldValue :: jsval
  w_isFirstRun :: bool
  w_pendingCleanup :: "ufun option"
  w_effect :: nat

text \<open>What the model records of a run: which closures were invoked, in which order.\<close>

datatype event =
    EvCall nat          \<comment> \<open>the effect function was invoked\<close>
  | EvBody nat          \<comment> \<open>its \<open>update\<close> body (for a computed cell: the getter) started\<close>
  | EvCleanup nat       \<comment> \<open>its registered cleanup was invoked\<close>
  | EvSched nat         \<comment> \<open>its scheduler was invoked with a job\<close>
  | EvCallback nat      \<comment> \<open>the callback of a watch binding was invoked\<close>
  | EvWatchCleanup nat  \<comment> \<open>the pending cleanup of a watch binding was invoked\<close>
  | EvConsoleError      \<comment> \<open>\<open>console.error\<close> was called\<close>

record config =
  batchUpdates :: bool
  deepReactiveMaxDepth :: int

record state =
  config :: config
  targetMap :: "dep \<Rightarrow> nat list option"
  effects :: "nat \<Rightarrow> effect"
  effectStack :: "nat list"
  activeEffect :: "nat option"
  shouldTrack :: bool
  updateQueue :: "nat list"
  scheduledEffects :: "nat list"
  batchStack :: int
  isBatching :: bool
  refs :: "nat \<Rightarrow> jsval"
  computeds :: "nat \<Rightarrow> computed_ref"
  watches :: "nat \<Rightarrow> watch_binding"
  next_effect :: nat           \<comment> \<open>the identity of the next effect function to be created\<close>
  trace :: "event list"

datatype res = Normal rv state | Thrown state

text \<open>A JavaScript \<open>Set\<close> keeps insertion order and ignores a second \<open>add\<close>.\<close>

definition set_add :: "'a \<Rightarrow> 'a list \<Rightarrow> 'a list" where
  "set_add x xs = (if x \<in> set xs then xs else xs @ [x])"

definition set_delete :: "'a \<Rightarrow> 'a list \<Rightarrow> 'a list" where
  "set_delete x xs = removeAll x xs"

definition emit :: "event \<Rightarrow> state \<Rightarrow> state" where
  "emit ev s = s\<lparr>trace := trace s @ [ev]\<rparr>"

subsection \<open>Dependency tracking\<close>

definition track :: "state \<Rightarrow> target \<Rightarrow> string \<Rightarrow> state" where
  "track s t k =
    (case activeEffect s of
       None \<Rightarrow> s
     | Some e \<Rightarrow>
        if \<not> shouldTrack s \<or> \<not> isActive (effects s e) then s
        else
          let dep = (case targetMap s (t, k) of None \<Rightarrow> [] | Some d \<Rightarrow> d) in
          if e \<in> set dep then s\<lparr>targetMap := (targetMap s)((t, k) \<mapsto> dep)\<rparr>
          else s\<lparr>targetMap := (targetMap s)((t, k) \<mapsto> dep @ [e]),
                 effects := (effects s)(e := (effects s e)\<lparr>deps := deps (effects s e) @ [(t, k)]\<rparr>)\<rparr>)"

text \<open>The \<open>effectsToRun\<close> set that \<open>trigger\<close> builds from a dependency set.\<close>

definition effectsToRun :: "state \<Rightarrow> nat list \<Rightarrow> nat list" where
  "effectsToRun s dep =
     fold (\<lambda>e acc. if activeEffect s \<noteq> Some e \<and> isActive (effects s e) then set_add e acc else acc)
       dep []"

definition cleanupEffect :: "state \<Rightarrow> nat \<Rightarrow> state" where
  "cleanupEffect s e =
     s\<lparr>targetMap := fold (\<lambda>d m. m(d := map_option (set_delete e) (m d))) (deps (effects s e)) (targetMap s),
       effects := (effects s)(e := (effects s e)\<lparr>deps := []\<rparr>)\<rparr>"

definition push_effect :: "nat \<Rightarrow> state \<Rightarrow> state" where
  "push_effect e s = s\<lparr>effectStack := effectStack s @ [e], activeEffect := Some e\<rparr>"

text \<open>The \<open>finally\<close> block of an effect function.\<close>

definition pop_effect :: "state \<Rightarrow> state" where
  "pop_effect s =
     (let st = butlast (effectStack s) in
      s\<lparr>effectStack := st, activeEffect := (if st = [] then None else Some (last st))\<rparr>)"

subsection \<open>Assignments to the module state\<close>

text \<open>Each is one statement, or one run of assignments, of the source.\<close>

definition dequeue :: "nat \<Rightarrow> state \<Rightarrow> state" where
  \<comment> \<open>\<open>updateQueue.delete(effectFn); scheduledEffects.delete(effectFn)\<close>\<close>
  "dequeue e s = s\<lparr>updateQueue := set_delete e (updateQueue s),
                    scheduledEffects := set_delete e (scheduledEffects s)\<rparr>"

definition enqueue :: "nat \<Rightarrow> state \<Rightarrow> state" where
  \<comment> \<open>the batched branch of \<open>trigger\<close>\<close>
  "enqueue e s =
     (if e \<in> set (scheduledEffects s) then s
      else s\<lparr>updateQueue := set_add e (updateQueue s),
             scheduledEffects := set_add e (scheduledEffects s)\<rparr>)"

definition batch_enter :: "state \<Rightarrow> state" where
  \<comment> \<open>\<open>batchStack++; isBatching = true\<close>\<close>
  "batch_enter s = s\<lparr>batchStack := batchStack s + 1, isBatching := True\<rparr>"

definition batch_leave :: "state \<Rightarrow> state" where
  \<comment> \<open>\<open>batchStack--\<close>\<close>
  "batch_leave s = s\<lparr>batchStack := batchStack s - 1\<rparr>"

definition batch_abort :: "state \<Rightarrow> state" where
  \<comment> \<open>the \<open>catch\<close> block of \<open>batch\<close>\<close>
  "batch_abort s = s\<lparr>batchStack := 0, isBatching := False, updateQueue := [], scheduledEffects := []\<rparr>"

definition flush_reset :: "state \<Rightarrow> state" where
  \<comment> \<open>the head of \<open>flushBatch\<close>, once the queue has been copied\<close>
  "flush_reset s = s\<lparr>isBatching := False, batchStack := 0, updateQueue := [], scheduledEffects := []\<rparr>"

definition set_ref :: "nat \<Rightarrow> jsval \<Rightarrow> state \<Rightarrow> state" where
  \<comment> \<open>\<open>this._value = newValue\<close>\<close>
  "set_ref c v s = s\<lparr>refs := (refs s)(c := v)\<rparr>"

definition create_effect :: "ufun \<Rightarrow> bool \<Rightarrow> sched option \<Rightarrow> state \<Rightarrow> state" where
  \<comment> \<open>a new effect function with its properties \<open>isActive\<close>, \<open>cleanup\<close>, \<open>deps\<close>, \<open>scheduler\<close>\<close>
  "create_effect f is_comp sch s =
     s\<lparr>effects := (effects s)(next_effect s :=
          \<lparr>update = f, is_computed = is_comp, isActive = True, cleanup = None, deps = [],
           scheduler = sch\<rparr>),
       next_effect := Suc (next_effect s)\<rparr>"

definition create_computed :: "nat \<Rightarrow> nat \<Rightarrow> state \<Rightarrow> state" where
  \<comment> \<open>the fields of a new \<open>ComputedRefImpl\<close>\<close>
  "create_computed c e s =
     s\<lparr>computeds := (computeds s)(c :=
          \<lparr>c_value = Val VUndef, c_dirty = True, c_isSetting = False, c_runner = e\<rparr>)\<rparr>"

definition create_watch :: "nat \<Rightarrow> nat \<Rightarrow> ufun \<Rightarrow> bool \<Rightarrow> nat \<Rightarrow> state \<Rightarrow> state" where
  \<comment> \<open>the local variables of a \<open>watch\<close> call\<close>
  "create_watch w c cb imm e s =
     s\<lparr>watches := (watches s)(w :=
          \<lparr>w_source = c, w_callback = cb, w_immediate = imm, w_oldValue = VUndef,
           w_isFirstRun = True, w_pendingCleanup = None, w_effect = e\<rparr>)\<rparr>"

definition set_cleanup :: "nat \<Rightarrow> ufun option \<Rightarrow> state \<Rightarrow> state" where
  \<comment> \<open>\<open>effectFn.cleanup = ...\<close>\<close>
  "set_cleanup e x s = s\<lparr>effects := (effects s)(e := (effects s e)\<lparr>cleanup := x\<rparr>)\<rparr>"

definition deactivate :: "nat \<Rightarrow> state \<Rightarrow> state" where
  \<comment> \<open>\<open>effectFn.isActive = false\<close>\<close>
  "deactivate e s = s\<lparr>effects := (effects s)(e := (effects s e)\<lparr>isActive := False\<rparr>)\<rparr>"

definition mark_dirty :: "nat \<Rightarrow> state \<Rightarrow> state" where
  \<comment> \<open>\<open>this._dirty = true\<close>\<close>
  "mark_dirty c s = s\<lparr>computeds := (computeds s)(c := (computeds s c)\<lparr>c_dirty := True\<rparr>)\<rparr>"

definition store_computed :: "nat \<Rightarrow> rv \<Rightarrow> state \<Rightarrow> state" where
  \<comment> \<open>\<open>this._value = ...; this._dirty = false\<close>\<close>
  "store_computed c v s =
     s\<lparr>computeds := (computeds s)(c := (computeds s c)\<lparr>c_value := v, c_dirty := False\<rparr>)\<rparr>"

definition set_pendingCleanup :: "nat \<Rightarrow> ufun option \<Rightarrow> state \<Rightarrow> state" where
  \<comment> \<open>\<open>pendingCleanup = ...\<close>\<close>
  "set_pendingCleanup w x s =
     s\<lparr>watches := (watches s)(w := (watches s w)\<lparr>w_pendingCleanup := x\<rparr>)\<rparr>"

definition set_oldValue :: "nat \<Rightarrow> jsval \<Rightarrow> state \<Rightarrow> state" where
  \<comment> \<open>\<open>oldValue = newValue\<close>\<close>
  "set_oldValue w v s = s\<lparr>watches := (watches s)(w := (watches s w)\<lparr>w_oldValue := v\<rparr>)\<rparr>"

definition first_run_done :: "nat \<Rightarrow> jsval \<Rightarrow> state \<Rightarrow> state" where
  \<comment> \<open>\<open>oldValue = newValue; isFirstRun = false\<close>\<close>
  "first_run_done w v s =
     s\<lparr>watches := (watches s)(w := (watches s w)\<lparr>w_oldValue := v, w_isFirstRun := False\<rparr>)\<rparr>"

subsection \<open>The interpreter\<close>

text \<open>
  Effects can trigger each other without end, so every call spends one unit of fuel and
  \<open>None\<close> means that the fuel ran out. A task is one call of a library function or of a
  closure.
\<close>

datatype task =
    Cmd cmd
  | Cmds "cmd list"
  | CallFn ufun
  | CallEffect nat
  | EffectBody nat
  | Trigger target string
  | TriggerLoop "nat list"
  | Route nat
  | RunSched nat sched
  | FlushBatch
  | FlushLoop "nat list"
  | StopEffect nat
  | ReadComputed nat
  | WatchRun nat
  | WatchCallback nat jsval
  | StopWatch nat

definition bnd :: "res option \<Rightarrow> (rv \<Rightarrow> state \<Rightarrow> res option) \<Rightarrow> res option" where
  "bnd r f = (case r of None \<Rightarrow> None | Some (Thrown s) \<Rightarrow> Some (Thrown s) | Some (Normal v s) \<Rightarrow> f v s)"

text \<open>\<open>try { ... } finally { g }\<close>.\<close>

definition try_finally :: "res option \<Rightarrow> (state \<Rightarrow> state) \<Rightarrow> res option" where
  "try_finally r g = (case r of None \<Rightarrow> None | Some (Thrown s) \<Rightarrow> Some (Thrown (g s))
                   | Some (Normal v s) \<Rightarrow> Some (Normal v (g s)))"

text \<open>\<open>try { ... } catch (error) { h }\<close>, the handler ending normally.\<close>

definition try_catch :: "res option \<Rightarrow> (state \<Rightarrow> state) \<Rightarrow> res option" where
  "try_catch r h = (case r of None \<Rightarrow> None | Some (Thrown s) \<Rightarrow> Some (Normal (Val VUndef) (h s))
                   | Some (Normal v s) \<Rightarrow> Some (Normal v s))"

text \<open>\<open>try { ... } catch (error) { h; throw error }\<close>.\<close>

definition try_rethrow :: "res option \<Rightarrow> (state \<Rightarrow> state) \<Rightarrow> res option" where
  "try_rethrow r h = (case r of None \<Rightarrow> None | Some (Thrown s) \<Rightarrow> Some (Thrown (h s))
                   | Some (Normal v s) \<Rightarrow> Some (Normal v s))"

definition ok :: "state \<Rightarrow> res option" where
  "ok s = Some (Normal (Val VUndef) s)"

definition give :: "rv \<Rightarrow> state \<Rightarrow> res option" where
  "give v s = Some (Normal v s)"

fun run :: "nat \<Rightarrow> task \<Rightarrow> state \<Rightarrow> res option" where
  "run 0 t s = None"
| "run (Suc n) (Cmds []) s = ok s"
| "run (Suc n) (Cmds (c # cs)) s = bnd (run n (Cmd c) s) (\<lambda>_. run n (Cmds cs))"
| "run (Suc n) (CallFn (Fn cs r)) s =
     bnd (run n (Cmds cs) s) (\<lambda>_ s1.
       case r of
         RetUndef \<Rightarrow> ok s1
       | RetFn f \<Rightarrow> give (Fun f) s1
       | RetRead c \<Rightarrow> give (Val (refs s1 c)) (track s1 (TRef c) ''value'')
       | RetComputed c \<Rightarrow> run n (ReadComputed c) s1
       | RetVal v \<Rightarrow> give (Val v) s1)"
  \<comment> \<open>\<open>RefImpl.value\<close> getter and setter\<close>
| "run (Suc n) (Cmd (RefGet c)) s = give (Val (refs s c)) (track s (TRef c) ''value'')"
| "run (Suc n) (Cmd (RefSet c v)) s =
     (if object_is (refs s c) v then ok s
      else run n (Trigger (TRef c) ''value'') (set_ref c v s))"
| "run (Suc n) (Cmd (ComputedGet c)) s = run n (ReadComputed c) s"
| "run (Suc n) (Cmd Throw) s = Some (Thrown s)"
  \<comment> \<open>\<open>batch\<close>\<close>
| "run (Suc n) (Cmd (Batch fn)) s =
     try_rethrow
       (bnd (run n (CallFn fn) (batch_enter s)) (\<lambda>result s2.
          if batchStack (batch_leave s2) = 0 \<and> \<not> isBatching s
          then bnd (run n FlushBatch (batch_leave s2)) (\<lambda>_. give result)
          else give result (batch_leave s2)))
       batch_abort"
| "run (Suc n) (Cmd FlushUpdates) s = (if isBatching s then run n FlushBatch s else ok s)"
| "run (Suc n) (Cmd (TryCatch cs)) s = bnd (try_catch (run n (Cmds cs) s) id) (\<lambda>_. ok)"
  \<comment> \<open>\<open>effect\<close>\<close>
| "run (Suc n) (Cmd (Effect f sch lazy)) s =
     (let s1 = create_effect f False (map_option UserSched sch) s
      in if lazy then ok s1 else run n (CallEffect (next_effect s)) s1)"
| "run (Suc n) (Cmd (Stop e)) s = run n (StopEffect e) s"
| "run (Suc n) (Cmd (Job e)) s = run n (CallEffect e) s"
  \<comment> \<open>\<open>computed\<close>: the \<open>ComputedRefImpl\<close> constructor with \<open>createComputedEffect\<close>, lazy\<close>
| "run (Suc n) (Cmd (Computed c g)) s =
     ok (create_computed c (next_effect s) (create_effect g True (Some (ComputedSched c)) s))"
  \<comment> \<open>\<open>watch\<close>\<close>
| "run (Suc n) (Cmd (Watch w c cb imm)) s =
     run n (Cmd (Effect (Fn [WatchEffectBody w] RetUndef) None False))
       (create_watch w c cb imm (next_effect s) s)"
| "run (Suc n) (Cmd (WatchEffectBody w)) s = run n (WatchRun w) s"
| "run (Suc n) (Cmd (OnCleanup w f)) s = ok (set_pendingCleanup w (Some f) s)"
| "run (Suc n) (Cmd (WatchStop w)) s = run n (StopWatch w) s"
  \<comment> \<open>the effect function built by \<open>effect\<close> and the one built by \<open>createComputedEffect\<close>\<close>
| "run (Suc n) (CallEffect e) s =
     (if is_computed (effects s e) then
        try_finally (run n (CallFn (update (effects s e))) (emit (EvBody e) (push_effect e (emit (EvCall e) s))))
          pop_effect
      else
        case cleanup (effects s e) of
          None \<Rightarrow> run n (EffectBody e) (emit (EvCall e) s)
        | Some cl \<Rightarrow>
            bnd (run n (CallFn cl) (emit (EvCleanup e) (emit (EvCall e) s))) (\<lambda>_ s1.
              run n (EffectBody e) (set_cleanup e None s1)))"
| "run (Suc n) (EffectBody e) s =
     try_finally
       (bnd (run n (CallFn (update (effects s e))) (emit (EvBody e) (push_effect e s))) (\<lambda>result s1.
          case result of
            Fun f \<Rightarrow> ok (set_cleanup e (Some f) s1)
          | Val _ \<Rightarrow> ok s1))
       pop_effect"
  \<comment> \<open>\<open>trigger\<close>\<close>
| "run (Suc n) (Trigger t k) s =
     (case targetMap s (t, k) of
        None \<Rightarrow> ok s
      | Some dep \<Rightarrow> run n (TriggerLoop (effectsToRun s dep)) s)"
| "run (Suc n) (TriggerLoop []) s = ok s"
| "run (Suc n) (TriggerLoop (e # es)) s = bnd (run n (Route e) s) (\<lambda>_. run n (TriggerLoop es))"
| "run (Suc n) (Route e) s =
     (if batchUpdates (config s) \<and> isBatching s then ok (enqueue e s)
      else
        case scheduler (effects s e) of
          Some sc \<Rightarrow> run n (RunSched e sc) (emit (EvSched e) s)
        | None \<Rightarrow> run n (CallEffect e) s)"
| "run (Suc n) (RunSched e (UserSched f)) s = run n (CallFn f) s"
  \<comment> \<open>the scheduler installed by the \<open>ComputedRefImpl\<close> constructor\<close>
| "run (Suc n) (RunSched e (ComputedSched c)) s =
     (if \<not> c_dirty (computeds s c) then
        (if \<not> c_isSetting (computeds s c) then run n (Trigger (TComputed c) ''value'') (mark_dirty c s)
         else ok (mark_dirty c s))
      else ok s)"
  \<comment> \<open>\<open>flushBatch\<close>\<close>
| "run (Suc n) FlushBatch s = run n (FlushLoop (updateQueue s)) (flush_reset s)"
| "run (Suc n) (FlushLoop []) s = ok s"
| "run (Suc n) (FlushLoop (e # es)) s =
     bnd (try_catch (run n (CallEffect e) s) (emit EvConsoleError)) (\<lambda>_. run n (FlushLoop es))"
  \<comment> \<open>the \<open>stop\<close> closure of \<open>effect\<close>\<close>
| "run (Suc n) (StopEffect e) s =
     (if isActive (effects s e) then
        (case cleanup (effects s e) of
           Some cl \<Rightarrow>
             bnd (run n (CallFn cl) (emit (EvCleanup e) (deactivate e (cleanupEffect s e)))) (\<lambda>_ s3.
               ok (dequeue e s3))
         | None \<Rightarrow> ok (dequeue e (deactivate e (cleanupEffect s e))))
      else ok s)"
  \<comment> \<open>\<open>ComputedRefImpl.value\<close> getter\<close>
| "run (Suc n) (ReadComputed c) s =
     (if c_dirty (computeds s c) then
        bnd (run n (CallEffect (c_runner (computeds s c))) (track s (TComputed c) ''value'')) (\<lambda>v s2.
          give v (store_computed c v s2))
      else give (c_value (computeds s c)) (track s (TComputed c) ''value''))"
  \<comment> \<open>the body that \<open>watch\<close> gives to \<open>effect\<close> (a cell as source, \<open>deep: false\<close>)\<close>
| "run (Suc n) (WatchRun w) s =
     (let newValue = refs s (w_source (watches s w));
          s1 = track s (TRef (w_source (watches s w))) ''value'' in
      if w_isFirstRun (watches s w) then
        bnd (if w_immediate (watches s w) then run n (WatchCallback w newValue) s1 else ok s1) (\<lambda>_ s2.
          ok (first_run_done w newValue s2))
      else if \<not> object_is (w_oldValue (watches s w)) newValue then
        bnd (case w_pendingCleanup (watches s w) of
               None \<Rightarrow> ok s1
             | Some cl \<Rightarrow>
                 bnd (run n (CallFn cl) (emit (EvWatchCleanup w) s1)) (\<lambda>_ s2.
                   ok (set_pendingCleanup w None s2)))
          (\<lambda>_ s3.
             bnd (run n (WatchCallback w newValue) s3) (\<lambda>_ s4. ok (set_oldValue w newValue s4)))
      else ok s1)"
| "run (Suc n) (WatchCallback w v) s = run n (CallFn (w_callback (watches s w))) (emit (EvCallback w) s)"
  \<comment> \<open>the stop handle that \<open>watch\<close> returns\<close>
| "run (Suc n) (StopWatch w) s =
     bnd (run n (StopEffect (w_effect (watches s w))) s) (\<lambda>_ s1.
       case w_pendingCleanup (watches s1 w) of
         Some cl \<Rightarrow> bnd (run n (CallFn cl) (emit (EvWatchCleanup w) s1)) (\<lambda>_. ok)
       | None \<Rightarrow> ok s1)"

subsection \<open>The initial state\<close>

definition DEFAULT_CONFIG :: config where
  "DEFAULT_CONFIG = \<lparr>batchUpdates = True, deepReactiveMaxDepth = 10\<rparr>"

text \<open>An identity that no \<open>effect\<close>, \<open>computed\<close> or \<open>watch\<close> call has created yet.\<close>

definition no_effect :: effect where
  "no_effect = \<lparr>update = Fn [] RetUndef, is_computed = False, isActive = False, cleanup = None,
                 deps = [], scheduler = None\<rparr>"

definition no_computed :: computed_ref where
  "no_computed = \<lparr>c_value = Val VUndef, c_dirty = True, c_isSetting = False, c_runner = 0\<rparr>"

definition no_watch :: watch_binding where
  "no_watch = \<lparr>w_source = 0, w_callback = Fn [] RetUndef, w_immediate = False, w_oldValue = VUndef,
                w_isFirstRun = True, w_pendingCleanup = None, w_effect = 0\<rparr>"

text \<open>The module's state after loading (and after \<open>clearReactivityState\<close>), with the given cells.\<close>

definition init_state :: "(nat \<Rightarrow> jsval) \<Rightarrow> state" where
  "init_state cells =
     \<lparr>config = DEFAULT_CONFIG, targetMap = (\<lambda>_. None), effects = (\<lambda>_. no_effect), effectStack = [],
      activeEffect = None, shouldTrack = True, updateQueue = [], scheduledEffects = [],
      batchStack = 0, isBatching = False, refs = cells, computeds = (\<lambda>_. no_computed),
      watches = (\<lambda>_. no_watch), next_effect = 0, trace = []\<rparr>"

fun state_of :: "res \<Rightarrow> state" where
  "state_of (Normal v s) = s"
| "state_of (Thrown s) = s"

fun is_thrown :: "res \<Rightarrow> bool" where
  "is_thrown (Normal v s) = False"
| "is_thrown (Thrown s) = True"

section \<open>Reactive proxies over objects and arrays\<close>

text \<open>
  Objects live in a heap of their own, apart from the state of the dependency graph: the
  closures that \<open>trigger\<close> runs are modelled as calling the cell API only.
  A plain object is its own data properties; an array is its elements (\<open>None\<close> is a
  hole) and its other own properties. Prototype chains, accessors and symbol keys are
  not modelled, and neither is a proxy whose target is a proxy.
\<close>

datatype hobj =
    HObject "string \<Rightarrow> jsval option"
  | HArray "jsval option list" "string \<Rightarrow> jsval option"
  | HOpaque                  \<comment> \<open>a Date, RegExp, Map, Set, WeakMap, WeakSet or Function\<close>
  | HProxy nat bool          \<comment> \<open>\<open>new Proxy(target, h)\<close>; \<open>h\<close> is \<open>arrayHandlers\<close> if the flag is set\<close>

record store =
  heap :: "nat \<Rightarrow> hobj option"
  reactiveMap :: "nat \<Rightarrow> nat option"
  next_addr :: nat

text \<open>An in-place mutation of the object at an address.\<close>

definition heap_put :: "store \<Rightarrow> nat \<Rightarrow> hobj \<Rightarrow> store" where
  "heap_put st a ob = st\<lparr>heap := (heap st)(a \<mapsto> ob)\<rparr>"

subsection \<open>Property keys\<close>

definition digit_of :: "char \<Rightarrow> nat option" where
  "digit_of c = (let n = (of_char c :: nat) in if 48 \<le> n \<and> n \<le> 57 then Some (n - 48) else None)"

definition hex_digit_of :: "char \<Rightarrow> nat option" where
  "hex_digit_of c =
     (let n = (of_char c :: nat) in
      if 48 \<le> n \<and> n \<le> 57 then Some (n - 48)
      else if 97 \<le> n \<and> n \<le> 102 then Some (n - 87)
      else if 65 \<le> n \<and> n \<le> 70 then Some (n - 55)
      else None)"

text \<open>The value of the longest prefix of digits in the given base, if there is a digit.\<close>

fun digits_prefix :: "(char \<Rightarrow> nat option) \<Rightarrow> nat \<Rightarrow> nat option \<Rightarrow> string \<Rightarrow> nat option" where
  "digits_prefix d b acc [] = acc"
| "digits_prefix d b acc (c # cs) =
     (case d c of
        None \<Rightarrow> acc
      | Some v \<Rightarrow> digits_prefix d b (Some ((case acc of None \<Rightarrow> 0 | Some a \<Rightarrow> a) * b + v)) cs)"

definition is_space :: "char \<Rightarrow> bool" where
  "is_space c = ((of_char c :: nat) \<in> {9, 10, 11, 12, 13, 32})"

text \<open>\<open>parseInt(key)\<close> with no radix; \<open>None\<close> is \<open>NaN\<close>, the flag is the sign.\<close>

definition parseInt :: "string \<Rightarrow> (bool \<times> nat) option" where
  "parseInt k =
     (let t = dropWhile is_space k;
          neg = (t \<noteq> [] \<and> hd t = CHR ''-'');
          u = (if t \<noteq> [] \<and> (hd t = CHR ''-'' \<or> hd t = CHR ''+'') then tl t else t)
      in map_option (Pair neg)
          (if take 2 u = ''0x'' \<or> take 2 u = ''0X'' then digits_prefix hex_digit_of 16 None (drop 2 u)
           else digits_prefix digit_of 10 None u))"

text \<open>\<open>!isNaN(numericKey) && numericKey >= 0\<close> (\<open>-0 >= 0\<close> holds).\<close>

definition isIndex :: "string \<Rightarrow> bool" where
  "isIndex k = (case parseInt k of None \<Rightarrow> False | Some (neg, v) \<Rightarrow> \<not> neg \<or> v = 0)"

text \<open>A key that is an array index: a canonical decimal numeral.\<close>

definition index_of_key :: "string \<Rightarrow> nat option" where
  "index_of_key k =
     (if k \<noteq> [] \<and> list_all (\<lambda>c. digit_of c \<noteq> None) k \<and> (k = ''0'' \<or> hd k \<noteq> CHR ''0'')
      then digits_prefix digit_of 10 None k else None)"

fun nat_to_string :: "nat \<Rightarrow> string" where
  "nat_to_string n =
     (if n < 10 then [char_of (48 + n)] else nat_to_string (n div 10) @ [char_of (48 + n mod 10)])"

declare nat_to_string.simps [simp del]

definition int_to_string :: "int \<Rightarrow> string" where
  "int_to_string i = (if i < 0 then CHR ''-'' # nat_to_string (nat (- i)) else nat_to_string (nat i))"

subsection \<open>The host's operations on one object\<close>

definition hole_free :: "jsval option \<Rightarrow> jsval" where
  "hole_free x = (case x of None \<Rightarrow> VUndef | Some v \<Rightarrow> v)"

text \<open>\<open>Reflect.get(target, key)\<close> and \<open>target[key]\<close> on a raw object.\<close>

definition reflect_get :: "hobj \<Rightarrow> string \<Rightarrow> jsval" where
  "reflect_get ob k =
     (case ob of
        HObject ps \<Rightarrow> hole_free (ps k)
      | HArray xs ex \<Rightarrow>
          (case index_of_key k of
             Some i \<Rightarrow> (if i < length xs then hole_free (xs ! i) else VUndef)
           | None \<Rightarrow> if k = ''length'' then VNum (JInt (int (length xs))) else hole_free (ex k))
      | _ \<Rightarrow> VUndef)"

definition reflect_has :: "hobj \<Rightarrow> string \<Rightarrow> bool" where
  "reflect_has ob k =
     (case ob of
        HObject ps \<Rightarrow> ps k \<noteq> None
      | HArray xs ex \<Rightarrow>
          (case index_of_key k of
             Some i \<Rightarrow> i < length xs \<and> xs ! i \<noteq> None
           | None \<Rightarrow> k = ''length'' \<or> ex k \<noteq> None)
      | _ \<Rightarrow> False)"

text \<open>
  \<open>Reflect.set(target, key, value, receiver)\<close> with the proxy as receiver ends in a
  definition on the target. \<open>None\<close>: a \<open>RangeError\<close> (invalid array length).
\<close>

definition reflect_set :: "hobj \<Rightarrow> string \<Rightarrow> jsval \<Rightarrow> (hobj \<times> bool) option" where
  "reflect_set ob k v =
     (case ob of
        HObject ps \<Rightarrow> Some (HObject (ps(k \<mapsto> v)), True)
      | HArray xs ex \<Rightarrow>
          (case index_of_key k of
             Some i \<Rightarrow>
               Some (HArray (if i < length xs then xs[i := Some v]
                             else xs @ replicate (i - length xs) None @ [Some v]) ex, True)
           | None \<Rightarrow>
               if k = ''length'' then
                 (case v of
                    VNum (JInt l) \<Rightarrow>
                      if 0 \<le> l then
                        Some (HArray (take (nat l) xs @ replicate (nat l - length xs) None) ex, True)
                      else None
                  | _ \<Rightarrow> None)
               else Some (HArray xs (ex(k \<mapsto> v)), True))
      | _ \<Rightarrow> Some (ob, False))"

definition reflect_deleteProperty :: "hobj \<Rightarrow> string \<Rightarrow> hobj \<times> bool" where
  "reflect_deleteProperty ob k =
     (case ob of
        HObject ps \<Rightarrow> (HObject (ps(k := None)), True)
      | HArray xs ex \<Rightarrow>
          (case index_of_key k of
             Some i \<Rightarrow> (HArray (if i < length xs then xs[i := None] else xs) ex, True)
           | None \<Rightarrow> if k = ''length'' then (ob, False) else (HArray xs (ex(k := None)), True))
      | _ \<Rightarrow> (ob, True))"

text \<open>
  \<open>Array.prototype[method].apply(target, args)\<close> belongs to the host and is a parameter:
  from the elements and the arguments to the new elements and the result, or \<open>None\<close>
  when it throws.
\<close>

type_synonym array_proto = "string \<Rightarrow> jsval option list \<Rightarrow> jsval list \<Rightarrow> (jsval option list \<times> jsval) option"

definition MUTATING_ARRAY_METHODS :: "string list" where
  "MUTATING_ARRAY_METHODS = [''push'', ''pop'', ''shift'', ''unshift'', ''splice'', ''sort'', ''reverse'']"

subsection \<open>\<open>reactive\<close>\<close>

text \<open>\<open>isReactiveEligible\<close>: an object whose constructor is not in \<open>NON_REACTIVE_TYPES\<close>.\<close>

definition isReactiveEligible :: "store \<Rightarrow> jsval \<Rightarrow> bool" where
  "isReactiveEligible st v =
     (case v of
        VObj a \<Rightarrow> (case heap st a of None \<Rightarrow> False | Some HOpaque \<Rightarrow> False | Some _ \<Rightarrow> True)
      | _ \<Rightarrow> False)"

text \<open>
  \<open>reactive(target, depth)\<close>. The array branch allocates the spread copy \<open>[...target]\<close>
  (holes become \<open>undefined\<close>, other own properties are not copied) and then the proxy
  over that copy. \<open>None\<close>: the target is itself a proxy, which is outside the model.
\<close>

definition reactive :: "config \<Rightarrow> store \<Rightarrow> jsval \<Rightarrow> int \<Rightarrow> (jsval \<times> store) option" where
  "reactive cfg st target depth =
     (if depth > (if deepReactiveMaxDepth cfg = 0 then 10 else deepReactiveMaxDepth cfg)
      then Some (target, st)
      else if \<not> isReactiveEligible st target then Some (target, st)
      else
        case target of
          VObj a \<Rightarrow>
            (case reactiveMap st a of
               Some existing \<Rightarrow> Some (VObj existing, st)
             | None \<Rightarrow>
                 (case heap st a of
                    Some (HArray xs ex) \<Rightarrow>
                      (let array = next_addr st; proxy = Suc array in
                       Some (VObj proxy,
                             st\<lparr>heap := (heap st)(array \<mapsto> HArray (map (Some \<circ> hole_free) xs) (\<lambda>_. None),
                                                      proxy \<mapsto> HProxy array True),
                                reactiveMap := (reactiveMap st)(a \<mapsto> proxy),
                                next_addr := Suc proxy\<rparr>))
                  | Some (HObject ps) \<Rightarrow>
                      (let proxy = next_addr st in
                       Some (VObj proxy,
                             st\<lparr>heap := (heap st)(proxy \<mapsto> HProxy a False),
                                reactiveMap := (reactiveMap st)(a \<mapsto> proxy),
                                next_addr := Suc proxy\<rparr>))
                  | _ \<Rightarrow> None))
        | _ \<Rightarrow> Some (target, st))"

subsection \<open>\<open>objectHandlers\<close>\<close>

text \<open>
  The traps receive the proxy's target. The \<open>get\<close> trap calls \<open>reactive(res)\<close> with one
  argument, so the \<open>depth\<close> parameter takes its default, 0.
\<close>

definition object_get :: "config \<Rightarrow> store \<Rightarrow> state \<Rightarrow> nat \<Rightarrow> string \<Rightarrow> (jsval \<times> store \<times> state) option" where
  "object_get cfg st s a k =
     (if k = ''__isReactive'' then Some (VBool True, st, s)
      else
        (case heap st a of
           None \<Rightarrow> None
         | Some ob \<Rightarrow>
             let res = reflect_get ob k;
                 s1 = track s (TObj a) k
             in if isReactiveEligible st res
                then map_option (\<lambda>(v, st1). (v, st1, s1)) (reactive cfg st res 0)
                else Some (res, st, s1)))"

definition object_set :: "nat \<Rightarrow> store \<Rightarrow> state \<Rightarrow> nat \<Rightarrow> string \<Rightarrow> jsval \<Rightarrow> (store \<times> res) option" where
  "object_set n st s a k v =
     (case heap st a of
        None \<Rightarrow> None
      | Some ob \<Rightarrow>
          if object_is (reflect_get ob k) v then Some (st, Normal (Val (VBool True)) s)
          else
            (case reflect_set ob k v of
               None \<Rightarrow> Some (st, Thrown s)
             | Some (ob1, result) \<Rightarrow>
                 map_option (Pair (heap_put st a ob1))
                   (if result
                    then bnd (run n (Trigger (TObj a) k) s) (\<lambda>_ s1. Some (Normal (Val (VBool result)) s1))
                    else Some (Normal (Val (VBool result)) s))))"

definition object_has :: "store \<Rightarrow> state \<Rightarrow> nat \<Rightarrow> string \<Rightarrow> (bool \<times> state) option" where
  "object_has st s a k =
     (case heap st a of None \<Rightarrow> None | Some ob \<Rightarrow> Some (reflect_has ob k, track s (TObj a) k))"

definition object_deleteProperty :: "nat \<Rightarrow> store \<Rightarrow> state \<Rightarrow> nat \<Rightarrow> string \<Rightarrow> (store \<times> res) option" where
  "object_deleteProperty n st s a k =
     (case heap st a of
        None \<Rightarrow> None
      | Some ob \<Rightarrow>
          let hadKey = reflect_has ob k;
              (ob1, result) = reflect_deleteProperty ob k
          in map_option (Pair (heap_put st a ob1))
               (if hadKey \<and> result
                then bnd (run n (Trigger (TObj a) k) s) (\<lambda>_ s1. Some (Normal (Val (VBool result)) s1))
                else Some (Normal (Val (VBool result)) s)))"

subsection \<open>\<open>arrayHandlers\<close>\<close>

text \<open>What the \<open>get\<close> trap of an array proxy returns: a value, or a method handler
  closed over the target.\<close>

datatype got = GotValue jsval | GotMethod nat string

definition array_get :: "config \<Rightarrow> store \<Rightarrow> state \<Rightarrow> nat \<Rightarrow> string \<Rightarrow> (got \<times> store \<times> state) option" where
  "array_get cfg st s a k =
     (if k = ''__isReactive'' then Some (GotValue (VBool True), st, s)
      else
        let s1 = track s (TObj a) k in
        if k \<in> set MUTATING_ARRAY_METHODS then Some (GotMethod a k, st, s1)
        else
          case heap st a of
            None \<Rightarrow> None
          | Some ob \<Rightarrow>
              let v = reflect_get ob k
              in if isReactiveEligible st v
                 then map_option (\<lambda>(v1, st1). (GotValue v1, st1, s1)) (reactive cfg st v 0)
                 else Some (GotValue v, st, s1))"

definition array_set :: "nat \<Rightarrow> store \<Rightarrow> state \<Rightarrow> nat \<Rightarrow> string \<Rightarrow> jsval \<Rightarrow> (store \<times> res) option" where
  "array_set n st s a k v =
     (case heap st a of
        None \<Rightarrow> None
      | Some ob \<Rightarrow>
          if object_is (reflect_get ob k) v then Some (st, Normal (Val (VBool True)) s)
          else
            (case reflect_set ob k v of
               None \<Rightarrow> Some (st, Thrown s)
             | Some (ob1, result) \<Rightarrow>
                 map_option (Pair (heap_put st a ob1))
                   (if result
                    then bnd (run n (Trigger (TObj a) k) s) (\<lambda>_ s1.
                           bnd (if isIndex k then run n (Trigger (TObj a) ''keys'') s1 else ok s1) (\<lambda>_ s2.
                             Some (Normal (Val (VBool result)) s2)))
                    else Some (Normal (Val (VBool result)) s))))"

definition array_has :: "store \<Rightarrow> state \<Rightarrow> nat \<Rightarrow> string \<Rightarrow> (bool \<times> state) option" where
  "array_has st s a k =
     (case heap st a of None \<Rightarrow> None | Some ob \<Rightarrow> Some (reflect_has ob k, track s (TObj a) k))"

definition array_deleteProperty :: "nat \<Rightarrow> store \<Rightarrow> state \<Rightarrow> nat \<Rightarrow> string \<Rightarrow> (store \<times> res) option" where
  "array_deleteProperty n st s a k =
     (case heap st a of
        None \<Rightarrow> None
      | Some ob \<Rightarrow>
          let hadKey = reflect_has ob k;
              (ob1, result) = reflect_deleteProperty ob k
          in map_option (Pair (heap_put st a ob1))
               (if hadKey \<and> result
                then bnd (run n (Trigger (TObj a) k) s) (\<lambda>_ s1.
                       bnd (run n (Trigger (TObj a) ''keys'') s1) (\<lambda>_ s2.
                         Some (Normal (Val (VBool result)) s2)))
                else Some (Normal (Val (VBool result)) s)))"

subsection \<open>Mutating array methods\<close>

definition nth_arg :: "jsval list \<Rightarrow> nat \<Rightarrow> jsval" where
  "nth_arg args i = (if i < length args then args ! i else VUndef)"

text \<open>
  The keys that \<open>handleArrayMethodTriggers\<close> notifies, in order; \<open>len\<close> is the length of
  the target after the call. The loops of \<open>splice\<close> run on the raw arguments; an
  argument that is not a number is read as \<open>NaN\<close> (no iteration) for the start and as 0
  for the count.
\<close>

definition handleArrayMethodTriggers :: "nat \<Rightarrow> string \<Rightarrow> jsval list \<Rightarrow> string list" where
  "handleArrayMethodTriggers len method args =
     (if method = ''push'' \<or> method = ''unshift'' then
        (let startIndex = (if method = ''push'' then int len - int (length args) else 0)
         in map int_to_string [startIndex .. startIndex + int (length args) - 1])
      else if method = ''pop'' \<or> method = ''shift'' then
        [int_to_string (if method = ''pop'' then int len else 0)]
      else if method = ''splice'' then
        (case (case nth_arg args 0 of VNum (JInt i) \<Rightarrow> Some i | VNum JNegZero \<Rightarrow> Some 0 | _ \<Rightarrow> None) of
           None \<Rightarrow> []
         | Some start \<Rightarrow>
             let deleteCount = (case nth_arg args 1 of VNum (JInt d) \<Rightarrow> d | _ \<Rightarrow> 0)
             in map int_to_string [start .. start + deleteCount - 1] @
                map int_to_string [start .. start + (int (length args) - 2) - 1])
      else if method = ''sort'' \<or> method = ''reverse'' then
        map int_to_string [0 .. int len - 1]
      else [])"

fun trigger_all :: "nat \<Rightarrow> target \<Rightarrow> string list \<Rightarrow> state \<Rightarrow> res option" where
  "trigger_all n t [] s = ok s"
| "trigger_all n t (k # ks) s = bnd (run n (Trigger t k) s) (\<lambda>_ s1. trigger_all n t ks s1)"

text \<open>Calling the function that \<open>createArrayMethodHandler(target, method)\<close> returns.\<close>

definition array_method :: "array_proto \<Rightarrow> nat \<Rightarrow> store \<Rightarrow> state \<Rightarrow> nat \<Rightarrow> string \<Rightarrow> jsval list \<Rightarrow> (store \<times> res) option" where
  "array_method proto n st s a method args =
     (case heap st a of
        Some (HArray xs ex) \<Rightarrow>
          (let oldLength = length xs;
               s1 = s\<lparr>shouldTrack := False\<rparr>
           in case proto method xs args of
                None \<Rightarrow> Some (st, Thrown s1)
              | Some (ys, result) \<Rightarrow>
                  map_option (Pair (heap_put st a (HArray ys ex)))
                    (bnd (trigger_all n (TObj a)
                            ((if length ys \<noteq> oldLength then [''length''] else []) @ [''keys''] @
                             handleArrayMethodTriggers (length ys) method args)
                            (s1\<lparr>shouldTrack := True\<rparr>))
                       (\<lambda>_ s2. Some (Normal (Val result) s2))))
      | _ \<Rightarrow> None)"

subsection \<open>Operations on a proxy\<close>

definition proxy_get :: "config \<Rightarrow> store \<Rightarrow> state \<Rightarrow> nat \<Rightarrow> string \<Rightarrow> (got \<times> store \<times> state) option" where
  "proxy_get cfg st s p k =
     (case heap st p of
        Some (HProxy a True) \<Rightarrow> array_get cfg st s a k
      | Some (HProxy a False) \<Rightarrow> map_option (\<lambda>(v, st1, s1). (GotValue v, st1, s1)) (object_get cfg st s a k)
      | _ \<Rightarrow> None)"

definition proxy_set :: "nat \<Rightarrow> store \<Rightarrow> state \<Rightarrow> nat \<Rightarrow> string \<Rightarrow> jsval \<Rightarrow> (store \<times> res) option" where
  "proxy_set n st s p k v =
     (case heap st p of
        Some (HProxy a True) \<Rightarrow> array_set n st s a k v
      | Some (HProxy a False) \<Rightarrow> object_set n st s a k v
      | _ \<Rightarrow> None)"

definition proxy_has :: "store \<Rightarrow> state \<Rightarrow> nat \<Rightarrow> string \<Rightarrow> (bool \<times> state) option" where
  "proxy_has st s p k =
     (case heap st p of
        Some (HProxy a True) \<Rightarrow> array_has st s a k
      | Some (HProxy a False) \<Rightarrow> object_has st s a k
      | _ \<Rightarrow> None)"

definition proxy_deleteProperty :: "nat \<Rightarrow> store \<Rightarrow> state \<Rightarrow> nat \<Rightarrow> string \<Rightarrow> (store \<times> res) option" where
  "proxy_deleteProperty n st s p k =
     (case heap st p of
        Some (HProxy a True) \<Rightarrow> array_deleteProperty n st s a k
      | Some (HProxy a False) \<Rightarrow> object_deleteProperty n st s a k
      | _ \<Rightarrow> None)"

text \<open>\<open>proxy[method](...args)\<close> for a mutating method of an array proxy.\<close>

definition proxy_call :: "array_proto \<Rightarrow> nat \<Rightarrow> config \<Rightarrow> store \<Rightarrow> state \<Rightarrow> nat \<Rightarrow> string \<Rightarrow> jsval list \<Rightarrow> (store \<times> res) option" where
  "proxy_call proto n cfg st s p method args =
     (case proxy_get cfg st s p method of
        Some (GotMethod a m, st1, s1) \<Rightarrow> array_method proto n st1 s1 a m args
      | _ \<Rightarrow> None)"

section \<open>Scenarios\<close>

text \<open>
  \<^verbatim>\<open>const r = ref(0)\<close>
  \<^verbatim>\<open>effect(() => { r.value }, { scheduler: (job) => {} })\<close>
  \<^verbatim>\<open>batch(() => { r.value = 1 })\<close>
  The scheduler drops every job, so it alone would never let the effect run again.
\<close>

definition scheduler_in_batch :: "cmd list" where
  "scheduler_in_batch =
     [Effect (Fn [RefGet 0] RetUndef) (Some (Fn [] RetUndef)) False,
      Batch (Fn [RefSet 0 (VNum (JInt 1))] RetUndef)]"

text \<open>The same without \<open>batch\<close>: \<^verbatim>\<open>r.value = 1\<close>.\<close>

definition scheduler_direct :: "cmd list" where
  "scheduler_direct =
     [Effect (Fn [RefGet 0] RetUndef) (Some (Fn [] RetUndef)) False,
      RefSet 0 (VNum (JInt 1))]"

definition zero_cells :: "nat \<Rightarrow> jsval" where
  "zero_cells = (\<lambda>_. VNum (JInt 0))"

text \<open>The events of a run, if it ends.\<close>

definition events :: "res option \<Rightarrow> event list option" where
  "events r = map_option (\<lambda>x. trace (state_of x)) r"

definition then_run :: "res option \<Rightarrow> nat \<Rightarrow> task \<Rightarrow> res option" where
  "then_run r n t = bnd r (\<lambda>_ s. run n t s)"

text \<open>What a run returned, and whether it threw.\<close>

definition returned :: "res option \<Rightarrow> rv option" where
  "returned r = (case r of Some (Normal v s) \<Rightarrow> Some v | _ \<Rightarrow> None)"

definition thrown :: "res option \<Rightarrow> bool option" where
  "thrown r = map_option is_thrown r"

text \<open>
  \<^verbatim>\<open>const stop = effect(() => { r.value; return () => { throw new Error() } })\<close>
  followed by \<^verbatim>\<open>r.value = 1\<close>, or by
  \<^verbatim>\<open>batch(() => { r.value = 1; try { stop() } catch (e) {} })\<close>.
\<close>

definition throwing_cleanup :: cmd where
  "throwing_cleanup = Effect (Fn [RefGet 0] (RetFn (Fn [Throw] RetUndef))) None False"

definition cleanup_throws_on_rerun :: "cmd list" where
  "cleanup_throws_on_rerun = [throwing_cleanup, RefSet 0 (VNum (JInt 1))]"

definition cleanup_throws_on_stop :: "cmd list" where
  "cleanup_throws_on_stop =
     [throwing_cleanup, Batch (Fn [RefSet 0 (VNum (JInt 1)), TryCatch [Stop 0]] RetUndef)]"

text \<open>
  \<^verbatim>\<open>const c = computed(() => r.value); c.value\<close>, then
  \<^verbatim>\<open>batch(() => { r.value = 2; return c.value })\<close>, and the same write without \<open>batch\<close>.
\<close>

definition computed_setup :: "cmd list" where
  "computed_setup = [Computed 0 (Fn [] (RetRead 0)), ComputedGet 0]"

definition computed_read_in_batch :: "res option" where
  "computed_read_in_batch =
     then_run (run 30 (Cmds computed_setup) (init_state zero_cells)) 30
       (Cmd (Batch (Fn [RefSet 0 (VNum (JInt 2))] (RetComputed 0))))"

definition computed_read_direct :: "res option" where
  "computed_read_direct =
     then_run (run 30 (Cmds (computed_setup @ [RefSet 0 (VNum (JInt 2))])) (init_state zero_cells)) 30
       (ReadComputed 0)"

text \<open>
  \<^verbatim>\<open>const stop = watch(r, (n, o, onCleanup) => { onCleanup(() => {}) })\<close>
  \<^verbatim>\<open>r.value = 1; stop(); stop()\<close>
\<close>

definition watch_stop_twice :: "cmd list" where
  "watch_stop_twice =
     [Watch 0 0 (Fn [OnCleanup 0 (Fn [] RetUndef)] RetUndef) False,
      RefSet 0 (VNum (JInt 1)), WatchStop 0, WatchStop 0]"

text \<open>
  Reading \<open>v.k1.k2...\<close>: through the \<open>get\<close> trap where the value at hand is a proxy,
  directly where it is a raw object.
\<close>

fun read_path :: "config \<Rightarrow> store \<Rightarrow> state \<Rightarrow> jsval \<Rightarrow> string list \<Rightarrow> (jsval \<times> store \<times> state) option" where
  "read_path cfg st s v [] = Some (v, st, s)"
| "read_path cfg st s v (k # ks) =
     (case v of
        VObj p \<Rightarrow>
          (case heap st p of
             Some (HProxy a h) \<Rightarrow>
               (case proxy_get cfg st s p k of
                  Some (GotValue v1, st1, s1) \<Rightarrow> read_path cfg st1 s1 v1 ks
                | _ \<Rightarrow> None)
           | Some ob \<Rightarrow> read_path cfg st s (reflect_get ob k) ks
           | None \<Rightarrow> None)
      | _ \<Rightarrow> None)"

text \<open>
  A chain of \<open>n + 1\<close> plain objects: object \<open>a < n\<close> holds object \<open>a + 1\<close> in its
  property \<open>child\<close>, as in \<^verbatim>\<open>{ child: { child: { ... { leaf: 1 } } } }\<close>.
\<close>

definition chain_heap :: "nat \<Rightarrow> nat \<Rightarrow> hobj option" where
  "chain_heap n a =
     (if a < n then Some (HObject (\<lambda>k. if k = ''child'' then Some (VObj (Suc a)) else None))
      else if a = n then Some (HObject (\<lambda>k. if k = ''leaf'' then Some (VNum (JInt 1)) else None))
      else None)"

definition chain_store :: "nat \<Rightarrow> store" where
  "chain_store n = \<lparr>heap = chain_heap n, reactiveMap = (\<lambda>_. None), next_addr = Suc n\<rparr>"

text \<open>The target of the proxy that a value is, if it is a proxy.\<close>

definition proxy_target :: "store \<Rightarrow> jsval \<Rightarrow> nat option" where
  "proxy_target st v =
     (case v of
        VObj p \<Rightarrow> (case heap st p of Some (HProxy a h) \<Rightarrow> Some a | _ \<Rightarrow> None)
      | _ \<Rightarrow> None)"

text \<open>
  The stores met while reading down the chain: \<open>d\<close> levels have been read, the objects
  0 to \<open>d\<close> have their proxies, the deeper ones have none yet.
\<close>

definition chain_inv :: "nat \<Rightarrow> nat \<Rightarrow> store \<Rightarrow> bool" where
  "chain_inv n d st \<longleftrightarrow>
     next_addr st = n + 2 + d \<and>
     (\<forall>a. a \<le> n \<longrightarrow> heap st a = chain_heap n a) \<and>
     (\<forall>i. i \<le> d \<longrightarrow> heap st (n + 1 + i) = Some (HProxy i False) \<and> reactiveMap st i = Some (n + 1 + i)) \<and>
     (\<forall>i. d < i \<longrightarrow> reactiveMap st i = None)"

text \<open>\<open>reactive(root).child.child...\<close>, \<open>d\<close> levels down a chain of \<open>n + 1\<close> objects:
  the value read and the raw object that it wraps, if it is a proxy.\<close>

definition read_chain :: "config \<Rightarrow> nat \<Rightarrow> nat \<Rightarrow> (jsval \<times> nat option) option" where
  "read_chain cfg n d =
     (case reactive cfg (chain_store n) (VObj 0) 0 of
        None \<Rightarrow> None
      | Some (root, st) \<Rightarrow>
          (case read_path cfg st (init_state zero_cells) root (replicate d ''child'') of
             None \<Rightarrow> None
           | Some (v, st1, s1) \<Rightarrow> Some (v, proxy_target st1 v)))"

text \<open>An array \<^verbatim>\<open>[1, 2]\<close> at address 0, and a host whose \<open>push\<close> appends.\<close>

definition arr_store :: store where
  "arr_store =
     \<lparr>heap = (\<lambda>a. if a = 0 then Some (HArray [Some (VNum (JInt 1)), Some (VNum (JInt 2))] (\<lambda>_. None))
                   else None),
      reactiveMap = (\<lambda>_. None), next_addr = 1\<rparr>"

definition push_proto :: array_proto where
  "push_proto m xs args =
     (if m = ''push'' then Some (xs @ map Some args, VNum (JInt (int (length xs + length args))))
      else None)"

text \<open>The elements of the array at an address, holes read as \<open>undefined\<close>.\<close>

definition elements :: "store \<Rightarrow> nat \<Rightarrow> jsval list option" where
  "elements st a = (case heap st a of Some (HArray xs ex) \<Rightarrow> Some (map hole_free xs) | _ \<Rightarrow> None)"

text \<open>
  \<^verbatim>\<open>const p = reactive(original); p[0] = 9; p.push(5)\<close>: the elements of the original
  and of the array at address 1 afterwards.
\<close>

definition array_scenario :: "(jsval list option \<times> jsval list option) option" where
  "array_scenario =
     (case reactive DEFAULT_CONFIG arr_store (VObj 0) 0 of
        Some (VObj p, st1) \<Rightarrow>
          (case proxy_set 20 st1 (init_state zero_cells) p ''0'' (VNum (JInt 9)) of
             Some (st2, r2) \<Rightarrow>
               (case proxy_call push_proto 20 DEFAULT_CONFIG st2 (state_of r2) p ''push'' [VNum (JInt 5)] of
                  Some (st3, r3) \<Rightarrow> Some (elements st3 0, elements st3 1)
                | None \<Rightarrow> None)
           | None \<Rightarrow> None)
      | _ \<Rightarrow> None)"

text \<open>One list of events continues another.\<close>

definition extends :: "'a list \<Rightarrow> 'a list \<Rightarrow> bool" where
  "extends xs ys \<longleftrightarrow> (\<exists>zs. ys = xs @ zs)"

text \<open>
  An effect that exists and has been stopped; and one that, besides, is in no batch
  queue.
\<close>

definition inactive :: "nat \<Rightarrow> state \<Rightarrow> bool" where
  "inactive e s \<longleftrightarrow> e < next_effect s \<and> \<not> isActive (effects s e)"

definition stopped :: "nat \<Rightarrow> state \<Rightarrow> bool" where
  "stopped e s \<longleftrightarrow> inactive e s \<and> e \<notin> set (updateQueue s) \<and> e \<notin> set (scheduledEffects s)"

text \<open>
  The calls that hand only effects with the property \<open>G\<close> to the routing of \<open>trigger\<close>
  by themselves: every call of the public API, and every internal one except the loop of
  \<open>trigger\<close> over a fan-out that holds another effect.
\<close>

fun routes_only :: "(nat \<Rightarrow> bool) \<Rightarrow> task \<Rightarrow> bool" where
  "routes_only G (Route e) = G e"
| "routes_only G (TriggerLoop es) = list_all G es"
| "routes_only G t = True"

text \<open>The fan-out of a write to a cell: the \<open>effectsToRun\<close> of its \<open>value\<close> key.\<close>

definition fanout :: "state \<Rightarrow> nat \<Rightarrow> nat list" where
  "fanout s c = (case targetMap s (TRef c, ''value'') of None \<Rightarrow> [] | Some dep \<Rightarrow> effectsToRun s dep)"

text \<open>The state that a run leaves (the initial state if it does not end).\<close>

definition after :: "res option \<Rightarrow> state" where
  "after r = (case r of Some x \<Rightarrow> state_of x | None \<Rightarrow> init_state zero_cells)"

text \<open>\<^verbatim>\<open>effect(() => { r.value })\<close>, once and twice.\<close>

definition reader :: cmd where
  "reader = Effect (Fn [RefGet 0] RetUndef) None False"

definition one_reader :: state where
  "one_reader = after (run 20 (Cmds [reader]) (init_state zero_cells))"

definition two_readers :: state where
  "two_readers = after (run 20 (Cmds [reader, reader]) (init_state zero_cells))"

text \<open>
  \<^verbatim>\<open>try { effect(() => { r.value; throw new Error() }) } catch (e) {}\<close>
  \<^verbatim>\<open>effect(() => { r.value })\<close>:
  effect 0 throws each time it runs, effect 1 does not; both depend on the cell.
\<close>

definition thrower_and_reader :: state where
  "thrower_and_reader =
     after (run 20 (Cmds [TryCatch [Effect (Fn [RefGet 0, Throw] RetUndef) None False], reader])
              (init_state zero_cells))"

text \<open>
  \<^verbatim>\<open>effect(() => { r.value; r.value = 1 })\<close>: the whole call, and the state in which
  the body, having read the cell, is about to write it.
\<close>

definition self_writer :: cmd where
  "self_writer = Effect (Fn [RefGet 0, RefSet 0 (VNum (JInt 1))] RetUndef) None False"

definition self_writer_at_write :: state where
  "self_writer_at_write =
     track (emit (EvBody 0) (push_effect 0 (emit (EvCall 0)
       (create_effect (Fn [RefGet 0, RefSet 0 (VNum (JInt 1))] RetUndef) False None
          (init_state zero_cells)))))
       (TRef 0) ''value''"

section \<open>Properties\<close>

text \<open>
  C1 (fails on the code). An effect with a custom scheduler that is triggered inside
  a batch is queued like any other and \<open>flushBatch\<close> calls it directly: the scheduler is
  never invoked and the effect body runs a second time. Triggered outside a batch, the
  same effect is handed to its scheduler, which drops the job.
\<close>

theorem C1_batch_flush_bypasses_scheduler:
  "events (run 30 (Cmds scheduler_in_batch) (init_state zero_cells))
     = Some [EvCall 0, EvBody 0, EvCall 0, EvBody 0]
   \<and> events (run 30 (Cmds scheduler_direct) (init_state zero_cells))
     = Some [EvCall 0, EvBody 0, EvSched 0]"
  by code_simp

text \<open>
  C2 (fails on the code). The effect function calls its registered cleanup outside any
  \<open>try\<close>: when the cleanup throws on a re-run, the write that triggered the re-run
  throws, nothing is reported and the body does not run again. \<open>stop\<close> calls it
  unprotected too: the exception leaves \<open>stop\<close> before the effect is removed from the
  batch queue, so the flush still calls the stopped effect.
\<close>

theorem C2_cleanup_error_not_caught:
  "thrown (run 30 (Cmds cleanup_throws_on_rerun) (init_state zero_cells)) = Some True
   \<and> events (run 30 (Cmds cleanup_throws_on_rerun) (init_state zero_cells))
     = Some [EvCall 0, EvBody 0, EvCall 0, EvCleanup 0]
   \<and> thrown (run 30 (Cmds [throwing_cleanup, Stop 0]) (init_state zero_cells)) = Some True
   \<and> events (run 30 (Cmds [throwing_cleanup, Stop 0]) (init_state zero_cells))
     = Some [EvCall 0, EvBody 0, EvCleanup 0]
   \<and> events (run 30 (Cmds cleanup_throws_on_stop) (init_state zero_cells))
     = Some [EvCall 0, EvBody 0, EvCleanup 0, EvCall 0, EvCleanup 0, EvConsoleError]"
  by code_simp

text \<open>Reading down a chain of plain objects: every level comes back wrapped.\<close>

lemma chain_start:
  assumes "0 \<le> deepReactiveMaxDepth cfg"
  shows "\<exists>st. reactive cfg (chain_store n) (VObj 0) 0 = Some (VObj (n + 1), st) \<and> chain_inv n 0 st"
  using assms
  by (auto simp: reactive_def chain_store_def chain_heap_def isReactiveEligible_def chain_inv_def Let_def)

lemma chain_step:
  assumes "chain_inv n d st" "d < n" "0 \<le> deepReactiveMaxDepth cfg"
  shows "\<exists>st1 s1. proxy_get cfg st s (n + 1 + d) ''child'' = Some (GotValue (VObj (n + 2 + d)), st1, s1)
           \<and> chain_inv n (Suc d) st1"
proof -
  from assms have p: "heap st (n + 1 + d) = Some (HProxy d False)"
    and o: "heap st d = chain_heap n d" and o1: "heap st (Suc d) = chain_heap n (Suc d)"
    and m: "reactiveMap st (Suc d) = None" and nx: "next_addr st = n + 2 + d"
    by (auto simp: chain_inv_def)
  have g: "reflect_get (HObject (\<lambda>k. if k = ''child'' then Some (VObj (Suc d)) else None)) ''child'' = VObj (Suc d)"
    by (simp add: reflect_get_def hole_free_def)
  have e: "isReactiveEligible st (VObj (Suc d))"
    using o1 assms(2) by (auto simp: isReactiveEligible_def chain_heap_def)
  show ?thesis
    using assms p o o1 m nx e g
    apply (simp add: proxy_get_def object_get_def reactive_def Let_def chain_heap_def split: if_splits)
    apply (auto simp: chain_inv_def chain_heap_def)
    done
qed

lemma chain_path:
  assumes "chain_inv n d st" "d + m \<le> n" "0 \<le> deepReactiveMaxDepth cfg"
  shows "\<exists>st1 s1. read_path cfg st s (VObj (n + 1 + d)) (replicate m ''child'')
                     = Some (VObj (n + 1 + d + m), st1, s1)
           \<and> chain_inv n (d + m) st1"
  using assms
proof (induction m arbitrary: d st s)
  case 0
  then show ?case by simp
next
  case (Suc m)
  from Suc.prems have dn: "d < n" by simp
  from chain_step[OF Suc.prems(1) dn Suc.prems(3), of s]
  obtain st1 s1 where g: "proxy_get cfg st s (n + 1 + d) ''child'' = Some (GotValue (VObj (n + 2 + d)), st1, s1)"
    and inv1: "chain_inv n (Suc d) st1" by blast
  from Suc.prems(1) have p: "heap st (n + 1 + d) = Some (HProxy d False)" by (auto simp: chain_inv_def)
  from Suc.IH[OF inv1 _ Suc.prems(3), of s1] Suc.prems(2)
  obtain st2 s2 where r: "read_path cfg st1 s1 (VObj (n + 1 + Suc d)) (replicate m ''child'')
                            = Some (VObj (n + 1 + Suc d + m), st2, s2)"
    and inv2: "chain_inv n (Suc d + m) st2" by auto
  show ?case using g p r inv2 by simp
qed

lemma read_chain_wrapped:
  assumes "0 \<le> deepReactiveMaxDepth cfg" "d \<le> n"
  shows "read_chain cfg n d = Some (VObj (n + 1 + d), Some d)"
proof -
  from chain_start[OF assms(1), of n] obtain st where
    r: "reactive cfg (chain_store n) (VObj 0) 0 = Some (VObj (n + 1), st)" and inv: "chain_inv n 0 st" by blast
  from chain_path[OF inv _ assms(1), of d "init_state zero_cells"] assms(2)
  obtain st1 s1 where p: "read_path cfg st (init_state zero_cells) (VObj (n + 1)) (replicate d ''child'')
                            = Some (VObj (n + 1 + d), st1, s1)"
    and inv1: "chain_inv n d st1" by auto
  from inv1 have "proxy_target st1 (VObj (n + 1 + d)) = Some d"
    by (auto simp: chain_inv_def proxy_target_def)
  with r p show ?thesis by (simp add: read_chain_def)
qed

lemma reactive_beyond_depth_raw:
  "map_option fst (reactive DEFAULT_CONFIG (chain_store 12) (VObj 12) 11) = Some (VObj 12)
   \<and> proxy_target (chain_store 12) (VObj 12) = None"
  by code_simp

text \<open>
  C3 (fails on the code). The \<open>get\<close> traps call \<open>reactive(value)\<close> without a depth, so
  every nested object is wrapped as if it were a root: twelve levels below a reactive
  root, beyond the default limit of 10, the value read is still a proxy. \<open>reactive\<close>
  itself does return its raw argument when it is given a depth above the limit.
\<close>

theorem C3_depth_never_passed:
  "read_chain DEFAULT_CONFIG 12 12 = Some (VObj 25, Some 12)
   \<and> map_option fst (reactive DEFAULT_CONFIG (chain_store 12) (VObj 12) 11) = Some (VObj 12)
   \<and> proxy_target (chain_store 12) (VObj 12) = None"
  using read_chain_wrapped[of DEFAULT_CONFIG 12 12] reactive_beyond_depth_raw
  by (simp add: DEFAULT_CONFIG_def)

text \<open>
  C5 (fails on the code). A dependency of a computed cell changes inside a batch: the
  runner effect is queued instead of being handed to the scheduler that sets the dirty
  flag, so the read that follows returns the cached value 0 although the cell now holds
  2, without running the getter; the flush then calls the getter and drops its result,
  and the computed cell stays stale after the batch. Outside a batch the same write
  reaches the scheduler and the next read recomputes.
\<close>

theorem C5_computed_stale_in_batch:
  "returned computed_read_in_batch = Some (Val (VNum (JInt 0)))
   \<and> map_option (\<lambda>r. refs (state_of r) 0) computed_read_in_batch = Some (VNum (JInt 2))
   \<and> events computed_read_in_batch = Some [EvCall 0, EvBody 0, EvCall 0, EvBody 0]
   \<and> returned (then_run computed_read_in_batch 30 (ReadComputed 0)) = Some (Val (VNum (JInt 0)))
   \<and> events (then_run computed_read_in_batch 30 (ReadComputed 0))
     = Some [EvCall 0, EvBody 0, EvCall 0, EvBody 0]
   \<and> returned computed_read_direct = Some (Val (VNum (JInt 2)))
   \<and> events computed_read_direct = Some [EvCall 0, EvBody 0, EvSched 0, EvCall 0, EvBody 0]"
  by code_simp

text \<open>
  C9 (fails on the code). The stop handle of a watch binding calls the pending cleanup
  and leaves it registered, so a second call of the handle invokes the cleanup a second
  time.
\<close>

theorem C9_watch_stop_runs_cleanup_again:
  "events (run 30 (Cmds watch_stop_twice) (init_state zero_cells))
     = Some [EvCall 0, EvBody 0, EvCall 0, EvBody 0, EvCallback 0, EvWatchCleanup 0, EvWatchCleanup 0]
   \<and> events (run 30 (Cmds (butlast watch_stop_twice)) (init_state zero_cells))
     = Some [EvCall 0, EvBody 0, EvCall 0, EvBody 0, EvCallback 0, EvWatchCleanup 0]"
  by code_simp

subsection \<open>Array proxies and the array they were made from\<close>

lemma reactive_array_fresh:
  assumes "heap st orig = Some (HArray xs ex)" "reactiveMap st orig = None" "0 \<le> deepReactiveMaxDepth cfg"
  shows "reactive cfg st (VObj orig) 0 =
           Some (VObj (Suc (next_addr st)),
                 st\<lparr>heap := (heap st)(next_addr st \<mapsto> HArray (map (Some \<circ> hole_free) xs) (\<lambda>_. None),
                                          Suc (next_addr st) \<mapsto> HProxy (next_addr st) True),
                    reactiveMap := (reactiveMap st)(orig \<mapsto> Suc (next_addr st)),
                    next_addr := Suc (Suc (next_addr st))\<rparr>)"
  using assms by (auto simp: reactive_def isReactiveEligible_def Let_def)

lemma array_set_frame:
  "array_set n st s c k v = Some (st1, r) \<Longrightarrow> a \<noteq> c \<Longrightarrow> heap st1 a = heap st a"
  by (auto simp: array_set_def heap_put_def split: option.splits if_splits prod.splits)

lemma array_delete_frame:
  "array_deleteProperty n st s c k = Some (st1, r) \<Longrightarrow> a \<noteq> c \<Longrightarrow> heap st1 a = heap st a"
  by (auto simp: array_deleteProperty_def heap_put_def Let_def split: option.splits if_splits prod.splits)

lemma array_method_frame:
  "array_method proto n st s c m args = Some (st1, r) \<Longrightarrow> a \<noteq> c \<Longrightarrow> heap st1 a = heap st a"
  by (auto simp: array_method_def heap_put_def Let_def split: option.splits if_splits prod.splits hobj.splits)

lemma proxy_call_frame:
  assumes "proxy_call proto n cfg st s p m args = Some (st1, r)" "heap st p = Some (HProxy c True)" "a \<noteq> c"
  shows "heap st1 a = heap st a"
proof -
  from assms(1,2) obtain s1 where mm: "array_method proto n st s1 c m args = Some (st1, r)"
    by (auto simp: proxy_call_def proxy_get_def array_get_def Let_def
             split: option.splits if_splits prod.splits got.splits)
  from array_method_frame[OF mm assms(3)] show ?thesis .
qed

lemma eligible_indep:
  assumes "heap st orig = Some (HArray zs ez)"
  shows "isReactiveEligible (heap_put st orig (HArray ys ey)) v = isReactiveEligible st v"
  using assms by (auto simp: isReactiveEligible_def heap_put_def split: jsval.splits option.splits hobj.splits)

lemma reactive_indep:
  assumes "heap st orig = Some (HArray zs ez)"
  shows "map_option fst (reactive cfg (heap_put st orig (HArray ys ey)) v d) = map_option fst (reactive cfg st v d)"
  using assms
  by (auto simp: reactive_def eligible_indep[OF assms] Let_def heap_put_def isReactiveEligible_def
           split: jsval.splits option.splits hobj.splits)

lemma array_get_indep:
  assumes "c \<noteq> orig" "heap st orig = Some (HArray zs ez)"
  shows "map_option (\<lambda>(g, st3, s3). (g, s3)) (array_get cfg (heap_put st orig (HArray ys ey)) s c k)
       = map_option (\<lambda>(g, st3, s3). (g, s3)) (array_get cfg st s c k)"
proof -
  have h: "heap (heap_put st orig (HArray ys ey)) c = heap st c"
    using assms(1) by (simp add: heap_put_def)
  have r: "\<And>v. map_option fst (reactive cfg (heap_put st orig (HArray ys ey)) v 0) = map_option fst (reactive cfg st v 0)"
    by (rule reactive_indep[OF assms(2)])
  show ?thesis
  proof (cases "heap st c")
    case None
    then show ?thesis using h by (simp add: array_get_def Let_def)
  next
    case (Some ob)
    have "map_option fst (reactive cfg (heap_put st orig (HArray ys ey)) (reflect_get ob k) 0)
          = map_option fst (reactive cfg st (reflect_get ob k) 0)" by (rule r)
    then show ?thesis using h Some
      by (cases "reactive cfg (heap_put st orig (HArray ys ey)) (reflect_get ob k) 0";
          cases "reactive cfg st (reflect_get ob k) 0")
         (auto simp: array_get_def Let_def eligible_indep[OF assms(2)])
  qed
qed

lemma array_has_indep:
  assumes "c \<noteq> orig"
  shows "array_has (heap_put st orig ob) s c k = array_has st s c k"
  using assms by (simp add: array_has_def heap_put_def)

lemma track_other_target:
  "t \<noteq> t' \<Longrightarrow> targetMap (track s t k) (t', k') = targetMap s (t', k')"
  by (auto simp: track_def Let_def split: option.splits)

lemma array_get_tracks_copy:
  assumes "array_get cfg st s c k = Some (g, st1, s1)" "c \<noteq> orig"
  shows "targetMap s1 (TObj orig, k') = targetMap s (TObj orig, k')"
  using assms
  by (auto simp: array_get_def Let_def track_other_target split: if_splits option.splits)

lemma array_has_tracks_copy:
  assumes "array_has st s c k = Some (b, s1)" "c \<noteq> orig"
  shows "targetMap s1 (TObj orig, k') = targetMap s (TObj orig, k')"
  using assms
  by (auto simp: array_has_def track_other_target split: option.splits)

text \<open>
  C10. \<open>reactive\<close> of a raw array that has no proxy yet allocates a copy of its elements
  and builds the proxy over that copy. Whatever the store later is, as long as the proxy
  is there: a write, a delete or a mutating method call through the proxy leaves the
  original array as it is; a read or an \<open>in\<close> test through the proxy registers nothing
  under the original array; and what they return does not change when the original
  array is mutated directly.
\<close>

theorem C10_array_proxy_over_copy:
  assumes "heap st orig = Some (HArray xs ex)" and "reactiveMap st orig = None"
    and "orig < next_addr st" and "0 \<le> deepReactiveMaxDepth cfg"
  shows "\<exists>c p st1.
      reactive cfg st (VObj orig) 0 = Some (VObj p, st1)
    \<and> heap st1 p = Some (HProxy c True) \<and> c \<noteq> orig \<and> p \<noteq> orig
    \<and> heap st1 c = Some (HArray (map (Some \<circ> hole_free) xs) (\<lambda>_. None))
    \<and> heap st1 orig = heap st orig
    \<and> (\<forall>st2. heap st2 p = Some (HProxy c True) \<longrightarrow>
         (\<forall>n s k v st3 r. proxy_set n st2 s p k v = Some (st3, r) \<longrightarrow> heap st3 orig = heap st2 orig)
       \<and> (\<forall>n s k st3 r. proxy_deleteProperty n st2 s p k = Some (st3, r) \<longrightarrow> heap st3 orig = heap st2 orig)
       \<and> (\<forall>proto n s m args st3 r.
             proxy_call proto n cfg st2 s p m args = Some (st3, r) \<longrightarrow> heap st3 orig = heap st2 orig)
       \<and> (\<forall>s k g st3 s3 k'. proxy_get cfg st2 s p k = Some (g, st3, s3) \<longrightarrow>
             targetMap s3 (TObj orig, k') = targetMap s (TObj orig, k'))
       \<and> (\<forall>s k b s3 k'. proxy_has st2 s p k = Some (b, s3) \<longrightarrow>
             targetMap s3 (TObj orig, k') = targetMap s (TObj orig, k'))
       \<and> (\<forall>zs ez ys ey s k. heap st2 orig = Some (HArray zs ez) \<longrightarrow>
             map_option (\<lambda>(g, st3, s3). (g, s3)) (proxy_get cfg (heap_put st2 orig (HArray ys ey)) s p k)
               = map_option (\<lambda>(g, st3, s3). (g, s3)) (proxy_get cfg st2 s p k)
           \<and> proxy_has (heap_put st2 orig (HArray ys ey)) s p k = proxy_has st2 s p k))"
proof -
  let ?c = "next_addr st" and ?p = "Suc (next_addr st)"
  let ?st1 = "st\<lparr>heap := (heap st)(?c \<mapsto> HArray (map (Some \<circ> hole_free) xs) (\<lambda>_. None), ?p \<mapsto> HProxy ?c True),
                  reactiveMap := (reactiveMap st)(orig \<mapsto> ?p), next_addr := Suc ?p\<rparr>"
  have r: "reactive cfg st (VObj orig) 0 = Some (VObj ?p, ?st1)"
    by (rule reactive_array_fresh[OF assms(1,2,4)])
  have ne: "?c \<noteq> orig" "?p \<noteq> orig" using assms(3) by auto
  have frame: "\<forall>st2. heap st2 ?p = Some (HProxy ?c True) \<longrightarrow>
         (\<forall>n s k v st3 r. proxy_set n st2 s ?p k v = Some (st3, r) \<longrightarrow> heap st3 orig = heap st2 orig)
       \<and> (\<forall>n s k st3 r. proxy_deleteProperty n st2 s ?p k = Some (st3, r) \<longrightarrow> heap st3 orig = heap st2 orig)
       \<and> (\<forall>proto n s m args st3 r.
             proxy_call proto n cfg st2 s ?p m args = Some (st3, r) \<longrightarrow> heap st3 orig = heap st2 orig)
       \<and> (\<forall>s k g st3 s3 k'. proxy_get cfg st2 s ?p k = Some (g, st3, s3) \<longrightarrow>
             targetMap s3 (TObj orig, k') = targetMap s (TObj orig, k'))
       \<and> (\<forall>s k b s3 k'. proxy_has st2 s ?p k = Some (b, s3) \<longrightarrow>
             targetMap s3 (TObj orig, k') = targetMap s (TObj orig, k'))
       \<and> (\<forall>zs ez ys ey s k. heap st2 orig = Some (HArray zs ez) \<longrightarrow>
             map_option (\<lambda>(g, st3, s3). (g, s3)) (proxy_get cfg (heap_put st2 orig (HArray ys ey)) s ?p k)
               = map_option (\<lambda>(g, st3, s3). (g, s3)) (proxy_get cfg st2 s ?p k)
           \<and> proxy_has (heap_put st2 orig (HArray ys ey)) s ?p k = proxy_has st2 s ?p k)"
  proof (intro allI impI)
    fix st2 :: store assume p: "heap st2 ?p = Some (HProxy ?c True)"
    have p': "\<And>ob. heap (heap_put st2 orig ob) ?p = Some (HProxy ?c True)"
      using p ne by (simp add: heap_put_def)
    have a: "\<forall>n s k v st3 r. proxy_set n st2 s ?p k v = Some (st3, r) \<longrightarrow> heap st3 orig = heap st2 orig"
      using p ne(1) by (auto simp: proxy_set_def dest: array_set_frame[where a=orig])
    have b: "\<forall>n s k st3 r. proxy_deleteProperty n st2 s ?p k = Some (st3, r) \<longrightarrow> heap st3 orig = heap st2 orig"
      using p ne(1) by (auto simp: proxy_deleteProperty_def dest: array_delete_frame[where a=orig])
    have c: "\<forall>proto n s m args st3 r.
             proxy_call proto n cfg st2 s ?p m args = Some (st3, r) \<longrightarrow> heap st3 orig = heap st2 orig"
      using p ne(1) by (auto dest: proxy_call_frame[where a=orig])
    have d: "\<forall>s k g st3 s3 k'. proxy_get cfg st2 s ?p k = Some (g, st3, s3) \<longrightarrow>
             targetMap s3 (TObj orig, k') = targetMap s (TObj orig, k')"
      using p ne(1) by (auto simp: proxy_get_def dest: array_get_tracks_copy[where orig=orig])
    have e: "\<forall>s k b s3 k'. proxy_has st2 s ?p k = Some (b, s3) \<longrightarrow>
             targetMap s3 (TObj orig, k') = targetMap s (TObj orig, k')"
      using p ne(1) by (auto simp: proxy_has_def dest: array_has_tracks_copy[where orig=orig])
    have f: "\<forall>zs ez ys ey s k. heap st2 orig = Some (HArray zs ez) \<longrightarrow>
             map_option (\<lambda>(g, st3, s3). (g, s3)) (proxy_get cfg (heap_put st2 orig (HArray ys ey)) s ?p k)
               = map_option (\<lambda>(g, st3, s3). (g, s3)) (proxy_get cfg st2 s ?p k)
           \<and> proxy_has (heap_put st2 orig (HArray ys ey)) s ?p k = proxy_has st2 s ?p k"
      using p p' ne(1) by (auto simp: proxy_get_def proxy_has_def array_get_indep array_has_indep)
    from a b c d e f show "(\<forall>n s k v st3 r. proxy_set n st2 s ?p k v = Some (st3, r) \<longrightarrow> heap st3 orig = heap st2 orig)
       \<and> (\<forall>n s k st3 r. proxy_deleteProperty n st2 s ?p k = Some (st3, r) \<longrightarrow> heap st3 orig = heap st2 orig)
       \<and> (\<forall>proto n s m args st3 r.
             proxy_call proto n cfg st2 s ?p m args = Some (st3, r) \<longrightarrow> heap st3 orig = heap st2 orig)
       \<and> (\<forall>s k g st3 s3 k'. proxy_get cfg st2 s ?p k = Some (g, st3, s3) \<longrightarrow>
             targetMap s3 (TObj orig, k') = targetMap s (TObj orig, k'))
       \<and> (\<forall>s k b s3 k'. proxy_has st2 s ?p k = Some (b, s3) \<longrightarrow>
             targetMap s3 (TObj orig, k') = targetMap s (TObj orig, k'))
       \<and> (\<forall>zs ez ys ey s k. heap st2 orig = Some (HArray zs ez) \<longrightarrow>
             map_option (\<lambda>(g, st3, s3). (g, s3)) (proxy_get cfg (heap_put st2 orig (HArray ys ey)) s ?p k)
               = map_option (\<lambda>(g, st3, s3). (g, s3)) (proxy_get cfg st2 s ?p k)
           \<and> proxy_has (heap_put st2 orig (HArray ys ey)) s ?p k = proxy_has st2 s ?p k)" by blast
  qed
  have h1: "heap ?st1 ?p = Some (HProxy ?c True)" by simp
  have h2: "heap ?st1 ?c = Some (HArray (map (Some \<circ> hole_free) xs) (\<lambda>_. None))" by simp
  have h3: "heap ?st1 orig = heap st orig" using ne by simp
  from r h1 h2 h3 ne frame show ?thesis by blast
qed

theorem C10_array_proxy_over_copy_witness:
  "heap arr_store 0 = Some (HArray [Some (VNum (JInt 1)), Some (VNum (JInt 2))] (\<lambda>_. None))
   \<and> reactiveMap arr_store 0 = None \<and> 0 < next_addr arr_store
   \<and> 0 \<le> deepReactiveMaxDepth DEFAULT_CONFIG
   \<and> (\<exists>c p st1. reactive DEFAULT_CONFIG arr_store (VObj 0) 0 = Some (VObj p, st1)
         \<and> heap st1 p = Some (HProxy c True) \<and> c \<noteq> 0 \<and> heap st1 0 = heap arr_store 0)
   \<and> array_scenario
       = Some (Some [VNum (JInt 1), VNum (JInt 2)], Some [VNum (JInt 9), VNum (JInt 2), VNum (JInt 5)])"
proof -
  have h1: "heap arr_store 0 = Some (HArray [Some (VNum (JInt 1)), Some (VNum (JInt 2))] (\<lambda>_. None))"
    and h2: "reactiveMap arr_store 0 = None" and h3: "0 < next_addr arr_store"
    by (simp_all add: arr_store_def)
  have h4: "0 \<le> deepReactiveMaxDepth DEFAULT_CONFIG" by (simp add: DEFAULT_CONFIG_def)
  from C10_array_proxy_over_copy[OF h1 h2 h3 h4]
  obtain c p st1 where "reactive DEFAULT_CONFIG arr_store (VObj 0) 0 = Some (VObj p, st1)"
    and "heap st1 p = Some (HProxy c True)" and "c \<noteq> 0" and "heap st1 0 = heap arr_store 0"
    by (elim exE conjE)
  then have e: "\<exists>c p st1. reactive DEFAULT_CONFIG arr_store (VObj 0) 0 = Some (VObj p, st1)
         \<and> heap st1 p = Some (HProxy c True) \<and> c \<noteq> 0 \<and> heap st1 0 = heap arr_store 0"
    by (intro exI conjI)
  have sc: "array_scenario
       = Some (Some [VNum (JInt 1), VNum (JInt 2)], Some [VNum (JInt 9), VNum (JInt 2), VNum (JInt 5)])"
    by code_simp
  from h1 h2 h3 h4 e sc show ?thesis by (intro conjI)
qed

subsection \<open>What the assignments change\<close>

lemma emit_fields [simp]:
  "config (emit ev s) = config s"
  "targetMap (emit ev s) = targetMap s"
  "effects (emit ev s) = effects s"
  "effectStack (emit ev s) = effectStack s"
  "activeEffect (emit ev s) = activeEffect s"
  "shouldTrack (emit ev s) = shouldTrack s"
  "updateQueue (emit ev s) = updateQueue s"
  "scheduledEffects (emit ev s) = scheduledEffects s"
  "batchStack (emit ev s) = batchStack s"
  "isBatching (emit ev s) = isBatching s"
  "refs (emit ev s) = refs s"
  "computeds (emit ev s) = computeds s"
  "watches (emit ev s) = watches s"
  "next_effect (emit ev s) = next_effect s"
  "trace (emit ev s) = trace s @ [ev]"
  by (simp_all add: emit_def)

lemma track_fields [simp]:
  "config (track s t k) = config s"
  "effectStack (track s t k) = effectStack s"
  "activeEffect (track s t k) = activeEffect s"
  "shouldTrack (track s t k) = shouldTrack s"
  "updateQueue (track s t k) = updateQueue s"
  "scheduledEffects (track s t k) = scheduledEffects s"
  "batchStack (track s t k) = batchStack s"
  "isBatching (track s t k) = isBatching s"
  "refs (track s t k) = refs s"
  "computeds (track s t k) = computeds s"
  "watches (track s t k) = watches s"
  "next_effect (track s t k) = next_effect s"
  "trace (track s t k) = trace s"
  "update (effects (track s t k) e) = update (effects s e)"
  "is_computed (effects (track s t k) e) = is_computed (effects s e)"
  "isActive (effects (track s t k) e) = isActive (effects s e)"
  "cleanup (effects (track s t k) e) = cleanup (effects s e)"
  "scheduler (effects (track s t k) e) = scheduler (effects s e)"
  by (auto simp: track_def Let_def split: option.splits)

lemma push_effect_fields [simp]:
  "config (push_effect e s) = config s"
  "targetMap (push_effect e s) = targetMap s"
  "effects (push_effect e s) = effects s"
  "effectStack (push_effect e s) = effectStack s @ [e]"
  "activeEffect (push_effect e s) = Some e"
  "shouldTrack (push_effect e s) = shouldTrack s"
  "updateQueue (push_effect e s) = updateQueue s"
  "scheduledEffects (push_effect e s) = scheduledEffects s"
  "batchStack (push_effect e s) = batchStack s"
  "isBatching (push_effect e s) = isBatching s"
  "refs (push_effect e s) = refs s"
  "computeds (push_effect e s) = computeds s"
  "watches (push_effect e s) = watches s"
  "next_effect (push_effect e s) = next_effect s"
  "trace (push_effect e s) = trace s"
  by (simp_all add: push_effect_def)

lemma pop_effect_fields [simp]:
  "config (pop_effect s) = config s"
  "targetMap (pop_effect s) = targetMap s"
  "effects (pop_effect s) = effects s"
  "effectStack (pop_effect s) = butlast (effectStack s)"
  "activeEffect (pop_effect s) = (if butlast (effectStack s) = [] then None else Some (last (butlast (effectStack s))))"
  "shouldTrack (pop_effect s) = shouldTrack s"
  "updateQueue (pop_effect s) = updateQueue s"
  "scheduledEffects (pop_effect s) = scheduledEffects s"
  "batchStack (pop_effect s) = batchStack s"
  "isBatching (pop_effect s) = isBatching s"
  "refs (pop_effect s) = refs s"
  "computeds (pop_effect s) = computeds s"
  "watches (pop_effect s) = watches s"
  "next_effect (pop_effect s) = next_effect s"
  "trace (pop_effect s) = trace s"
  by (simp_all add: pop_effect_def Let_def)

lemma cleanupEffect_fields [simp]:
  "config (cleanupEffect s e) = config s"
  "effectStack (cleanupEffect s e) = effectStack s"
  "activeEffect (cleanupEffect s e) = activeEffect s"
  "shouldTrack (cleanupEffect s e) = shouldTrack s"
  "updateQueue (cleanupEffect s e) = updateQueue s"
  "scheduledEffects (cleanupEffect s e) = scheduledEffects s"
  "batchStack (cleanupEffect s e) = batchStack s"
  "isBatching (cleanupEffect s e) = isBatching s"
  "refs (cleanupEffect s e) = refs s"
  "computeds (cleanupEffect s e) = computeds s"
  "watches (cleanupEffect s e) = watches s"
  "next_effect (cleanupEffect s e) = next_effect s"
  "trace (cleanupEffect s e) = trace s"
  "update (effects (cleanupEffect s e) e') = update (effects s e')"
  "is_computed (effects (cleanupEffect s e) e') = is_computed (effects s e')"
  "isActive (effects (cleanupEffect s e) e') = isActive (effects s e')"
  "cleanup (effects (cleanupEffect s e) e') = cleanup (effects s e')"
  "scheduler (effects (cleanupEffect s e) e') = scheduler (effects s e')"
  by (simp_all add: cleanupEffect_def)

lemma dequeue_fields [simp]:
  "config (dequeue e s) = config s"
  "targetMap (dequeue e s) = targetMap s"
  "effects (dequeue e s) = effects s"
  "effectStack (dequeue e s) = effectStack s"
  "activeEffect (dequeue e s) = activeEffect s"
  "shouldTrack (dequeue e s) = shouldTrack s"
  "updateQueue (dequeue e s) = set_delete e (updateQueue s)"
  "scheduledEffects (dequeue e s) = set_delete e (scheduledEffects s)"
  "batchStack (dequeue e s) = batchStack s"
  "isBatching (dequeue e s) = isBatching s"
  "refs (dequeue e s) = refs s"
  "computeds (dequeue e s) = computeds s"
  "watches (dequeue e s) = watches s"
  "next_effect (dequeue e s) = next_effect s"
  "trace (dequeue e s) = trace s"
  by (simp_all add: dequeue_def)

lemma enqueue_fields [simp]:
  "config (enqueue e s) = config s"
  "targetMap (enqueue e s) = targetMap s"
  "effects (enqueue e s) = effects s"
  "effectStack (enqueue e s) = effectStack s"
  "activeEffect (enqueue e s) = activeEffect s"
  "shouldTrack (enqueue e s) = shouldTrack s"
  "updateQueue (enqueue e s) = (if e \<in> set (scheduledEffects s) then updateQueue s else set_add e (updateQueue s))"
  "scheduledEffects (enqueue e s) = set_add e (scheduledEffects s)"
  "batchStack (enqueue e s) = batchStack s"
  "isBatching (enqueue e s) = isBatching s"
  "refs (enqueue e s) = refs s"
  "computeds (enqueue e s) = computeds s"
  "watches (enqueue e s) = watches s"
  "next_effect (enqueue e s) = next_effect s"
  "trace (enqueue e s) = trace s"
  by (auto simp: enqueue_def set_add_def)

lemma batch_enter_fields [simp]:
  "config (batch_enter s) = config s"
  "targetMap (batch_enter s) = targetMap s"
  "effects (batch_enter s) = effects s"
  "effectStack (batch_enter s) = effectStack s"
  "activeEffect (batch_enter s) = activeEffect s"
  "shouldTrack (batch_enter s) = shouldTrack s"
  "updateQueue (batch_enter s) = updateQueue s"
  "scheduledEffects (batch_enter s) = scheduledEffects s"
  "batchStack (batch_enter s) = batchStack s + 1"
  "isBatching (batch_enter s) = True"
  "refs (batch_enter s) = refs s"
  "computeds (batch_enter s) = computeds s"
  "watches (batch_enter s) = watches s"
  "next_effect (batch_enter s) = next_effect s"
  "trace (batch_enter s) = trace s"
  by (simp_all add: batch_enter_def)

lemma batch_leave_fields [simp]:
  "config (batch_leave s) = config s"
  "targetMap (batch_leave s) = targetMap s"
  "effects (batch_leave s) = effects s"
  "effectStack (batch_leave s) = effectStack s"
  "activeEffect (batch_leave s) = activeEffect s"
  "shouldTrack (batch_leave s) = shouldTrack s"
  "updateQueue (batch_leave s) = updateQueue s"
  "scheduledEffects (batch_leave s) = scheduledEffects s"
  "batchStack (batch_leave s) = batchStack s - 1"
  "isBatching (batch_leave s) = isBatching s"
  "refs (batch_leave s) = refs s"
  "computeds (batch_leave s) = computeds s"
  "watches (batch_leave s) = watches s"
  "next_effect (batch_leave s) = next_effect s"
  "trace (batch_leave s) = trace s"
  by (simp_all add: batch_leave_def)

lemma batch_abort_fields [simp]:
  "config (batch_abort s) = config s"
  "targetMap (batch_abort s) = targetMap s"
  "effects (batch_abort s) = effects s"
  "effectStack (batch_abort s) = effectStack s"
  "activeEffect (batch_abort s) = activeEffect s"
  "shouldTrack (batch_abort s) = shouldTrack s"
  "updateQueue (batch_abort s) = []"
  "scheduledEffects (batch_abort s) = []"
  "batchStack (batch_abort s) = 0"
  "isBatching (batch_abort s) = False"
  "refs (batch_abort s) = refs s"
  "computeds (batch_abort s) = computeds s"
  "watches (batch_abort s) = watches s"
  "next_effect (batch_abort s) = next_effect s"
  "trace (batch_abort s) = trace s"
  by (simp_all add: batch_abort_def)

lemma flush_reset_fields [simp]:
  "config (flush_reset s) = config s"
  "targetMap (flush_reset s) = targetMap s"
  "effects (flush_reset s) = effects s"
  "effectStack (flush_reset s) = effectStack s"
  "activeEffect (flush_reset s) = activeEffect s"
  "shouldTrack (flush_reset s) = shouldTrack s"
  "updateQueue (flush_reset s) = []"
  "scheduledEffects (flush_reset s) = []"
  "batchStack (flush_reset s) = 0"
  "isBatching (flush_reset s) = False"
  "refs (flush_reset s) = refs s"
  "computeds (flush_reset s) = computeds s"
  "watches (flush_reset s) = watches s"
  "next_effect (flush_reset s) = next_effect s"
  "trace (flush_reset s) = trace s"
  by (simp_all add: flush_reset_def)

lemma set_ref_fields [simp]:
  "config (set_ref c v s) = config s"
  "targetMap (set_ref c v s) = targetMap s"
  "effects (set_ref c v s) = effects s"
  "effectStack (set_ref c v s) = effectStack s"
  "activeEffect (set_ref c v s) = activeEffect s"
  "shouldTrack (set_ref c v s) = shouldTrack s"
  "updateQueue (set_ref c v s) = updateQueue s"
  "scheduledEffects (set_ref c v s) = scheduledEffects s"
  "batchStack (set_ref c v s) = batchStack s"
  "isBatching (set_ref c v s) = isBatching s"
  "refs (set_ref c v s) = (refs s)(c := v)"
  "computeds (set_ref c v s) = computeds s"
  "watches (set_ref c v s) = watches s"
  "next_effect (set_ref c v s) = next_effect s"
  "trace (set_ref c v s) = trace s"
  by (simp_all add: set_ref_def)

lemma create_effect_fields [simp]:
  "config (create_effect f b sch s) = config s"
  "targetMap (create_effect f b sch s) = targetMap s"
  "effects (create_effect f b sch s) = (effects s)(next_effect s := \<lparr>update = f, is_computed = b, isActive = True, cleanup = None, deps = [], scheduler = sch\<rparr>)"
  "effectStack (create_effect f b sch s) = effectStack s"
  "activeEffect (create_effect f b sch s) = activeEffect s"
  "shouldTrack (create_effect f b sch s) = shouldTrack s"
  "updateQueue (create_effect f b sch s) = updateQueue s"
  "scheduledEffects (create_effect f b sch s) = scheduledEffects s"
  "batchStack (create_effect f b sch s) = batchStack s"
  "isBatching (create_effect f b sch s) = isBatching s"
  "refs (create_effect f b sch s) = refs s"
  "computeds (create_effect f b sch s) = computeds s"
  "watches (create_effect f b sch s) = watches s"
  "next_effect (create_effect f b sch s) = Suc (next_effect s)"
  "trace (create_effect f b sch s) = trace s"
  by (simp_all add: create_effect_def)

lemma create_computed_fields [simp]:
  "config (create_computed c e s) = config s"
  "targetMap (create_computed c e s) = targetMap s"
  "effects (create_computed c e s) = effects s"
  "effectStack (create_computed c e s) = effectStack s"
  "activeEffect (create_computed c e s) = activeEffect s"
  "shouldTrack (create_computed c e s) = shouldTrack s"
  "updateQueue (create_computed c e s) = updateQueue s"
  "scheduledEffects (create_computed c e s) = scheduledEffects s"
  "batchStack (create_computed c e s) = batchStack s"
  "isBatching (create_computed c e s) = isBatching s"
  "refs (create_computed c e s) = refs s"
  "computeds (create_computed c e s) = (computeds s)(c := \<lparr>c_value = Val VUndef, c_dirty = True, c_isSetting = False, c_runner = e\<rparr>)"
  "watches (create_computed c e s) = watches s"
  "next_effect (create_computed c e s) = next_effect s"
  "trace (create_computed c e s) = trace s"
  by (simp_all add: create_computed_def)

lemma create_watch_fields [simp]:
  "config (create_watch w c cb imm e s) = config s"
  "targetMap (create_watch w c cb imm e s) = targetMap s"
  "effects (create_watch w c cb imm e s) = effects s"
  "effectStack (create_watch w c cb imm e s) = effectStack s"
  "activeEffect (create_watch w c cb imm e s) = activeEffect s"
  "shouldTrack (create_watch w c cb imm e s) = shouldTrack s"
  "updateQueue (create_watch w c cb imm e s) = updateQueue s"
  "scheduledEffects (create_watch w c cb imm e s) = scheduledEffects s"
  "batchStack (create_watch w c cb imm e s) = batchStack s"
  "isBatching (create_watch w c cb imm e s) = isBatching s"
  "refs (create_watch w c cb imm e s) = refs s"
  "computeds (create_watch w c cb imm e s) = computeds s"
  "next_effect (create_watch w c cb imm e s) = next_effect s"
  "trace (create_watch w c cb imm e s) = trace s"
  by (simp_all add: create_watch_def)

lemma set_cleanup_fields [simp]:
  "config (set_cleanup e x s) = config s"
  "targetMap (set_cleanup e x s) = targetMap s"
  "effects (set_cleanup e x s) = (effects s)(e := (effects s e)\<lparr>cleanup := x\<rparr>)"
  "effectStack (set_cleanup e x s) = effectStack s"
  "activeEffect (set_cleanup e x s) = activeEffect s"
  "shouldTrack (set_cleanup e x s) = shouldTrack s"
  "updateQueue (set_cleanup e x s) = updateQueue s"
  "scheduledEffects (set_cleanup e x s) = scheduledEffects s"
  "batchStack (set_cleanup e x s) = batchStack s"
  "isBatching (set_cleanup e x s) = isBatching s"
  "refs (set_cleanup e x s) = refs s"
  "computeds (set_cleanup e x s) = computeds s"
  "watches (set_cleanup e x s) = watches s"
  "next_effect (set_cleanup e x s) = next_effect s"
  "trace (set_cleanup e x s) = trace s"
  by (simp_all add: set_cleanup_def)

lemma deactivate_fields [simp]:
  "config (deactivate e s) = config s"
  "targetMap (deactivate e s) = targetMap s"
  "effects (deactivate e s) = (effects s)(e := (effects s e)\<lparr>isActive := False\<rparr>)"
  "effectStack (deactivate e s) = effectStack s"
  "activeEffect (deactivate e s) = activeEffect s"
  "shouldTrack (deactivate e s) = shouldTrack s"
  "updateQueue (deactivate e s) = updateQueue s"
  "scheduledEffects (deactivate e s) = scheduledEffects s"
  "batchStack (deactivate e s) = batchStack s"
  "isBatching (deactivate e s) = isBatching s"
  "refs (deactivate e s) = refs s"
  "computeds (deactivate e s) = computeds s"
  "watches (deactivate e s) = watches s"
  "next_effect (deactivate e s) = next_effect s"
  "trace (deactivate e s) = trace s"
  by (simp_all add: deactivate_def)

lemma mark_dirty_fields [simp]:
  "config (mark_dirty c s) = config s"
  "targetMap (mark_dirty c s) = targetMap s"
  "effects (mark_dirty c s) = effects s"
  "effectStack (mark_dirty c s) = effectStack s"
  "activeEffect (mark_dirty c s) = activeEffect s"
  "shouldTrack (mark_dirty c s) = shouldTrack s"
  "updateQueue (mark_dirty c s) = updateQueue s"
  "scheduledEffects (mark_dirty c s) = scheduledEffects s"
  "batchStack (mark_dirty c s) = batchStack s"
  "isBatching (mark_dirty c s) = isBatching s"
  "refs (mark_dirty c s) = refs s"
  "computeds (mark_dirty c s) = (computeds s)(c := (computeds s c)\<lparr>c_dirty := True\<rparr>)"
  "watches (mark_dirty c s) = watches s"
  "next_effect (mark_dirty c s) = next_effect s"
  "trace (mark_dirty c s) = trace s"
  by (simp_all add: mark_dirty_def)

lemma store_computed_fields [simp]:
  "config (store_computed c v s) = config s"
  "targetMap (store_computed c v s) = targetMap s"
  "effects (store_computed c v s) = effects s"
  "effectStack (store_computed c v s) = effectStack s"
  "activeEffect (store_computed c v s) = activeEffect s"
  "shouldTrack (store_computed c v s) = shouldTrack s"
  "updateQueue (store_computed c v s) = updateQueue s"
  "scheduledEffects (store_computed c v s) = scheduledEffects s"
  "batchStack (store_computed c v s) = batchStack s"
  "isBatching (store_computed c v s) = isBatching s"
  "refs (store_computed c v s) = refs s"
  "computeds (store_computed c v s) = (computeds s)(c := (computeds s c)\<lparr>c_value := v, c_dirty := False\<rparr>)"
  "watches (store_computed c v s) = watches s"
  "next_effect (store_computed c v s) = next_effect s"
  "trace (store_computed c v s) = trace s"
  by (simp_all add: store_computed_def)

lemma set_pendingCleanup_fields [simp]:
  "config (set_pendingCleanup w x s) = config s"
  "targetMap (set_pendingCleanup w x s) = targetMap s"
  "effects (set_pendingCleanup w x s) = effects s"
  "effectStack (set_pendingCleanup w x s) = effectStack s"
  "activeEffect (set_pendingCleanup w x s) = activeEffect s"
  "shouldTrack (set_pendingCleanup w x s) = shouldTrack s"
  "updateQueue (set_pendingCleanup w x s) = updateQueue s"
  "scheduledEffects (set_pendingCleanup w x s) = scheduledEffects s"
  "batchStack (set_pendingCleanup w x s) = batchStack s"
  "isBatching (set_pendingCleanup w x s) = isBatching s"
  "refs (set_pendingCleanup w x s) = refs s"
  "computeds (set_pendingCleanup w x s) = computeds s"
  "watches (set_pendingCleanup w x s) = (watches s)(w := (watches s w)\<lparr>w_pendingCleanup := x\<rparr>)"
  "next_effect (set_pendingCleanup w x s) = next_effect s"
  "trace (set_pendingCleanup w x s) = trace s"
  by (simp_all add: set_pendingCleanup_def)

lemma set_oldValue_fields [simp]:
  "config (set_oldValue w v s) = config s"
  "targetMap (set_oldValue w v s) = targetMap s"
  "effects (set_oldValue w v s) = effects s"
  "effectStack (set_oldValue w v s) = effectStack s"
  "activeEffect (set_oldValue w v s) = activeEffect s"
  "shouldTrack (set_oldValue w v s) = shouldTrack s"
  "updateQueue (set_oldValue w v s) = updateQueue s"
  "scheduledEffects (set_oldValue w v s) = scheduledEffects s"
  "batchStack (set_oldValue w v s) = batchStack s"
  "isBatching (set_oldValue w v s) = isBatching s"
  "refs (set_oldValue w v s) = refs s"
  "computeds (set_oldValue w v s) = computeds s"
  "watches (set_oldValue w v s) = (watches s)(w := (watches s w)\<lparr>w_oldValue := v\<rparr>)"
  "next_effect (set_oldValue w v s) = next_effect s"
  "trace (set_oldValue w v s) = trace s"
  by (simp_all add: set_oldValue_def)

lemma first_run_done_fields [simp]:
  "config (first_run_done w v s) = config s"
  "targetMap (first_run_done w v s) = targetMap s"
  "effects (first_run_done w v s) = effects s"
  "effectStack (first_run_done w v s) = effectStack s"
  "activeEffect (first_run_done w v s) = activeEffect s"
  "shouldTrack (first_run_done w v s) = shouldTrack s"
  "updateQueue (first_run_done w v s) = updateQueue s"
  "scheduledEffects (first_run_done w v s) = scheduledEffects s"
  "batchStack (first_run_done w v s) = batchStack s"
  "isBatching (first_run_done w v s) = isBatching s"
  "refs (first_run_done w v s) = refs s"
  "computeds (first_run_done w v s) = computeds s"
  "watches (first_run_done w v s) = (watches s)(w := (watches s w)\<lparr>w_oldValue := v, w_isFirstRun := False\<rparr>)"
  "next_effect (first_run_done w v s) = next_effect s"
  "trace (first_run_done w v s) = trace s"
  by (simp_all add: first_run_done_def)

subsection \<open>Invariants of every run\<close>

text \<open>
  A property of the state that every assignment of the library keeps is kept by every
  call, whatever user code it runs. Queueing may depend on a property \<open>G\<close> of the queued
  effect that holds throughout every fan-out.
\<close>

lemma bnd_inv:
  assumes "bnd x f = Some r"
    and "\<And>y. x = Some y \<Longrightarrow> I (state_of y)"
    and "\<And>v s1 r'. I s1 \<Longrightarrow> f v s1 = Some r' \<Longrightarrow> I (state_of r')"
  shows "I (state_of r)"
  using assms by (auto simp: bnd_def split: option.splits res.splits)

lemma try_finally_inv:
  assumes "try_finally x g = Some r"
    and "\<And>y. x = Some y \<Longrightarrow> I (state_of y)"
    and "\<And>s1. I s1 \<Longrightarrow> I (g s1)"
  shows "I (state_of r)"
  using assms by (auto simp: try_finally_def split: option.splits res.splits)

lemma try_catch_inv:
  assumes "try_catch x g = Some r"
    and "\<And>y. x = Some y \<Longrightarrow> I (state_of y)"
    and "\<And>s1. I s1 \<Longrightarrow> I (g s1)"
  shows "I (state_of r)"
  using assms by (auto simp: try_catch_def split: option.splits res.splits)

lemma try_rethrow_inv:
  assumes "try_rethrow x g = Some r"
    and "\<And>y. x = Some y \<Longrightarrow> I (state_of y)"
    and "\<And>s1. I s1 \<Longrightarrow> I (g s1)"
  shows "I (state_of r)"
  using assms by (auto simp: try_rethrow_def split: option.splits res.splits)

lemma run_invariant:
  assumes emit: "\<And>s ev. I s \<Longrightarrow> I (emit ev s)"
    and track: "\<And>s t k. I s \<Longrightarrow> I (track s t k)"
    and push: "\<And>s e. I s \<Longrightarrow> I (push_effect e s)"
    and pop: "\<And>s. I s \<Longrightarrow> I (pop_effect s)"
    and cleanupEffect: "\<And>s e. I s \<Longrightarrow> I (cleanupEffect s e)"
    and dequeue: "\<And>s e. I s \<Longrightarrow> I (dequeue e s)"
    and enqueue: "\<And>s e. I s \<Longrightarrow> G e \<Longrightarrow> I (enqueue e s)"
    and batch_enter: "\<And>s. I s \<Longrightarrow> I (batch_enter s)"
    and batch_leave: "\<And>s. I s \<Longrightarrow> I (batch_leave s)"
    and batch_abort: "\<And>s. I s \<Longrightarrow> I (batch_abort s)"
    and flush_reset: "\<And>s. I s \<Longrightarrow> I (flush_reset s)"
    and set_ref: "\<And>s c v. I s \<Longrightarrow> I (set_ref c v s)"
    and create_effect: "\<And>s f b sch. I s \<Longrightarrow> I (create_effect f b sch s)"
    and create_computed: "\<And>s c e. I s \<Longrightarrow> I (create_computed c e s)"
    and create_watch: "\<And>s w c cb imm e. I s \<Longrightarrow> I (create_watch w c cb imm e s)"
    and set_cleanup: "\<And>s e x. I s \<Longrightarrow> I (set_cleanup e x s)"
    and deactivate: "\<And>s e. I s \<Longrightarrow> I (deactivate e s)"
    and mark_dirty: "\<And>s c. I s \<Longrightarrow> I (mark_dirty c s)"
    and store_computed: "\<And>s c v. I s \<Longrightarrow> I (store_computed c v s)"
    and set_pendingCleanup: "\<And>s w x. I s \<Longrightarrow> I (set_pendingCleanup w x s)"
    and set_oldValue: "\<And>s w v. I s \<Longrightarrow> I (set_oldValue w v s)"
    and first_run_done: "\<And>s w v. I s \<Longrightarrow> I (first_run_done w v s)"
    and fan: "\<And>s dep e. I s \<Longrightarrow> e \<in> set (effectsToRun s dep) \<Longrightarrow> G e"
  shows "run n t s = Some r \<Longrightarrow> I s \<Longrightarrow> routes_only G t \<Longrightarrow> I (state_of r)"
proof (induction n arbitrary: t s r)
  case 0
  then show ?case by simp
next
  case (Suc n)
  note P = emit track push pop cleanupEffect dequeue enqueue batch_enter batch_leave batch_abort flush_reset set_ref create_effect create_computed create_watch set_cleanup deactivate mark_dirty store_computed set_pendingCleanup set_oldValue first_run_done
  note BND = bnd_inv[where I=I] and FIN = try_finally_inv[where I=I]
    and CATCH = try_catch_inv[where I=I] and RETHROW = try_rethrow_inv[where I=I]
  have IH: "\<And>t s r. run n t s = Some r \<Longrightarrow> routes_only G t \<Longrightarrow> I s \<Longrightarrow> I (state_of r)"
    using Suc.IH by blast
  show ?case
  proof (cases t)
    case (Cmd c)
    then show ?thesis using Suc.prems by (cases c) (auto simp: ok_def give_def Let_def list_all_iff split: option.splits if_splits rv.splits ret.splits elim!: BND FIN CATCH RETHROW dest!: IH intro!: P intro: fan)
  next
    case (Cmds cs)
    then show ?thesis using Suc.prems by (cases cs) (auto simp: ok_def give_def Let_def list_all_iff split: option.splits if_splits rv.splits ret.splits elim!: BND FIN CATCH RETHROW dest!: IH intro!: P intro: fan)
  next
    case (CallFn f)
    then show ?thesis using Suc.prems by (cases f) (auto simp: ok_def give_def Let_def list_all_iff split: option.splits if_splits rv.splits ret.splits elim!: BND FIN CATCH RETHROW dest!: IH intro!: P intro: fan)
  next
    case (CallEffect e)
    then show ?thesis using Suc.prems by (auto simp: ok_def give_def Let_def list_all_iff split: option.splits if_splits rv.splits ret.splits elim!: BND FIN CATCH RETHROW dest!: IH intro!: P intro: fan)
  next
    case (EffectBody e)
    then show ?thesis using Suc.prems by (auto simp: ok_def give_def Let_def list_all_iff split: option.splits if_splits rv.splits ret.splits elim!: BND FIN CATCH RETHROW dest!: IH intro!: P intro: fan)
  next
    case (Trigger tg k)
    then show ?thesis using Suc.prems by (auto simp: ok_def give_def Let_def list_all_iff split: option.splits if_splits rv.splits ret.splits elim!: BND FIN CATCH RETHROW dest!: IH intro!: P intro: fan)
  next
    case (TriggerLoop es)
    then show ?thesis using Suc.prems by (cases es) (auto simp: ok_def give_def Let_def list_all_iff split: option.splits if_splits rv.splits ret.splits elim!: BND FIN CATCH RETHROW dest!: IH intro!: P intro: fan)
  next
    case (Route e)
    then show ?thesis using Suc.prems by (auto simp: ok_def give_def Let_def list_all_iff split: option.splits if_splits rv.splits ret.splits elim!: BND FIN CATCH RETHROW dest!: IH intro!: P intro: fan)
  next
    case (RunSched e sc)
    then show ?thesis using Suc.prems by (cases sc) (auto simp: ok_def give_def Let_def list_all_iff split: option.splits if_splits rv.splits ret.splits elim!: BND FIN CATCH RETHROW dest!: IH intro!: P intro: fan)
  next
    case FlushBatch
    then show ?thesis using Suc.prems by (auto simp: ok_def give_def Let_def list_all_iff split: option.splits if_splits rv.splits ret.splits elim!: BND FIN CATCH RETHROW dest!: IH intro!: P intro: fan)
  next
    case (FlushLoop es)
    then show ?thesis using Suc.prems by (cases es) (auto simp: ok_def give_def Let_def list_all_iff split: option.splits if_splits rv.splits ret.splits elim!: BND FIN CATCH RETHROW dest!: IH intro!: P intro: fan)
  next
    case (StopEffect e)
    then show ?thesis using Suc.prems by (auto simp: ok_def give_def Let_def list_all_iff split: option.splits if_splits rv.splits ret.splits elim!: BND FIN CATCH RETHROW dest!: IH intro!: P intro: fan)
  next
    case (ReadComputed c)
    then show ?thesis using Suc.prems by (auto simp: ok_def give_def Let_def list_all_iff split: option.splits if_splits rv.splits ret.splits elim!: BND FIN CATCH RETHROW dest!: IH intro!: P intro: fan)
  next
    case (WatchRun w)
    then show ?thesis using Suc.prems by (auto simp: ok_def give_def Let_def list_all_iff split: option.splits if_splits rv.splits ret.splits elim!: BND FIN CATCH RETHROW dest!: IH intro!: P intro: fan)
  next
    case (WatchCallback w v)
    then show ?thesis using Suc.prems by (auto simp: ok_def give_def Let_def list_all_iff split: option.splits if_splits rv.splits ret.splits elim!: BND FIN CATCH RETHROW dest!: IH intro!: P intro: fan)
  next
    case (StopWatch w)
    then show ?thesis using Suc.prems by (auto simp: ok_def give_def Let_def list_all_iff split: option.splits if_splits rv.splits ret.splits elim!: BND FIN CATCH RETHROW dest!: IH intro!: P intro: fan)
  qed
qed


lemma routes_only_True [simp]: "routes_only (\<lambda>_. True) t"
  by (cases t) (auto simp: list_all_iff)

lemma extends_refl [simp]: "extends xs xs" by (simp add: extends_def)
lemma extends_trans: "extends xs ys \<Longrightarrow> extends ys zs \<Longrightarrow> extends xs zs" by (auto simp: extends_def)
lemma extends_snoc: "extends xs ys \<Longrightarrow> extends xs (ys @ zs)" by (auto simp: extends_def)

lemma run_extends: "run n t s = Some r \<Longrightarrow> extends (trace s) (trace (state_of r))"
  by (rule run_invariant[where I="\<lambda>s'. extends (trace s) (trace s')" and G="\<lambda>_. True" and n=n and t=t and s=s])
     (auto intro: extends_snoc)

lemma run_inactive: "run n t s = Some r \<Longrightarrow> inactive e s \<Longrightarrow> inactive e (state_of r)"
  by (rule run_invariant[where I="inactive e" and G="\<lambda>_. True" and n=n and t=t and s=s])
     (auto simp: inactive_def)

lemma set_set_add [simp]: "set (set_add x xs) = insert x (set xs)"
  by (auto simp: set_add_def)

lemma distinct_set_add [simp]: "distinct (set_add x xs) = distinct xs"
  by (auto simp: set_add_def)

lemma set_set_delete [simp]: "set (set_delete x xs) = set xs - {x}"
  by (auto simp: set_delete_def)

lemma distinct_set_delete [simp]: "distinct xs \<Longrightarrow> distinct (set_delete x xs)"
  by (simp add: set_delete_def distinct_removeAll)

lemma fold_set_add_set:
  "set (fold (\<lambda>e acc. if P e then set_add e acc else acc) dep acc) = set acc \<union> {x \<in> set dep. P x}"
  by (induction dep arbitrary: acc) auto

lemma fold_set_add_distinct:
  "distinct acc \<Longrightarrow> distinct (fold (\<lambda>e acc. if P e then set_add e acc else acc) dep acc)"
  by (induction dep arbitrary: acc) auto

lemma set_effectsToRun:
  "set (effectsToRun s dep) = {e \<in> set dep. activeEffect s \<noteq> Some e \<and> isActive (effects s e)}"
  by (simp add: effectsToRun_def fold_set_add_set)

lemma distinct_effectsToRun [simp]: "distinct (effectsToRun s dep)"
  by (simp add: effectsToRun_def fold_set_add_distinct)

lemma run_stopped:
  "run n t s = Some r \<Longrightarrow> stopped e s \<Longrightarrow> routes_only (\<lambda>e'. e' \<noteq> e) t \<Longrightarrow> stopped e (state_of r)"
  by (rule run_invariant[where I="stopped e" and G="\<lambda>e'. e' \<noteq> e" and n=n and t=t and s=s])
     (auto simp: stopped_def inactive_def set_effectsToRun)

lemma call_effect_first:
  assumes "run n (CallEffect e) s = Some y"
  shows "\<exists>evs. trace (state_of y) = trace s @ EvCall e # evs"
proof -
  from assms obtain k where n: "n = Suc k" by (cases n) auto
  show ?thesis
    using assms unfolding n
    by (auto simp: bnd_def try_finally_def extends_def split: if_splits option.splits res.splits
             dest!: run_extends)
qed

lemma flush_loop_runs_all:
  "run n (FlushLoop es) s = Some r \<Longrightarrow>
     \<not> is_thrown r \<and> (\<exists>evs. trace (state_of r) = trace s @ evs \<and> (\<forall>e \<in> set es. EvCall e \<in> set evs))"
proof (induction es arbitrary: n s r)
  case Nil
  then show ?case by (cases n) (auto simp: ok_def)
next
  case (Cons e es)
  from Cons.prems obtain k where n: "n = Suc k" by (cases n) auto
  from Cons.prems n have "\<exists>y s1. run k (CallEffect e) s = Some y
      \<and> (s1 = state_of y \<or> s1 = emit EvConsoleError (state_of y))
      \<and> run k (FlushLoop es) s1 = Some r"
    by (cases "run k (CallEffect e) s") (auto simp: bnd_def try_catch_def split: res.splits)
  then obtain y s1 where y: "run k (CallEffect e) s = Some y"
    and s1: "s1 = state_of y \<or> s1 = emit EvConsoleError (state_of y)"
    and rest: "run k (FlushLoop es) s1 = Some r"
    by blast
  from call_effect_first[OF y] s1 obtain evs0 where t1: "trace s1 = trace s @ EvCall e # evs0"
    by auto
  from Cons.IH[OF rest] obtain evs where nt: "\<not> is_thrown r"
    and t2: "trace (state_of r) = trace s1 @ evs" and all: "\<forall>e \<in> set es. EvCall e \<in> set evs"
    by blast
  have "trace (state_of r) = trace s @ (EvCall e # evs0 @ evs)" using t1 t2 by simp
  moreover have "\<forall>x \<in> set (e # es). EvCall x \<in> set (EvCall e # evs0 @ evs)" using all by auto
  ultimately show ?case using nt by blast
qed

text \<open>
  C8. A flush that ends never throws, and every queued effect has been called by then,
  whatever the others did. An effect that throws when the flush calls it is reported
  with \<open>console.error\<close> and the flush goes on with the rest of the queue. When
  \<open>trigger\<close> calls the same effect directly (no batch, no scheduler), the exception
  leaves \<open>trigger\<close> and the rest of the fan-out is not called.
\<close>

theorem C8_flush_catches_errors:
  "(run n (FlushLoop es) s = Some r \<longrightarrow>
       \<not> is_thrown r \<and> (\<exists>evs. trace (state_of r) = trace s @ evs \<and> (\<forall>e \<in> set es. EvCall e \<in> set evs)))
   \<and> (run n (CallEffect e) s = Some (Thrown s1) \<longrightarrow>
       run (Suc n) (FlushLoop (e # es)) s = run n (FlushLoop es) (emit EvConsoleError s1))
   \<and> (\<not> (batchUpdates (config s) \<and> isBatching s) \<and> scheduler (effects s e) = None
        \<and> run n (CallEffect e) s = Some (Thrown s1) \<longrightarrow>
       run (Suc (Suc n)) (TriggerLoop (e # es)) s = Some (Thrown s1))"
  using flush_loop_runs_all[of n es s r]
  by (auto simp: bnd_def try_catch_def)

text \<open>
  C7. Whether \<open>stop\<close> returns or throws, the effect is inactive afterwards and a second
  \<open>stop\<close> returns at once with the state untouched. The \<open>stop\<close> that returns has
  removed the effect from the batch queue, and from then on, whatever runs, the effect
  stays inactive and out of the queue and is in no fan-out of \<open>trigger\<close>.
\<close>

theorem C7_stop_idempotent:
  assumes "e < next_effect s" and "run n (StopEffect e) s = Some r"
  shows "inactive e (state_of r)
       \<and> run (Suc m) (StopEffect e) (state_of r) = ok (state_of r)
       \<and> (isActive (effects s e) \<and> \<not> is_thrown r \<longrightarrow> stopped e (state_of r))
       \<and> (\<forall>k t r'. stopped e (state_of r) \<and> routes_only (\<lambda>e'. e' \<noteq> e) t \<and> run k t (state_of r) = Some r' \<longrightarrow>
             stopped e (state_of r') \<and> (\<forall>dep. e \<notin> set (effectsToRun (state_of r') dep)))"
proof -
  from assms(2) obtain k where n: "n = Suc k" by (cases n) auto
  have i2: "inactive e (emit (EvCleanup e) (deactivate e (cleanupEffect s e)))"
    using assms(1) by (simp add: inactive_def)
  have ina: "inactive e (state_of r)"
    using assms i2 unfolding n
    by (auto simp: ok_def bnd_def inactive_def split: if_splits option.splits res.splits
             dest!: run_inactive[where e=e])
  have st: "isActive (effects s e) \<and> \<not> is_thrown r \<longrightarrow> stopped e (state_of r)"
    using assms i2 unfolding n
    by (auto simp: ok_def bnd_def inactive_def stopped_def split: if_splits option.splits res.splits
             dest!: run_inactive[where e=e])
  have again: "run (Suc m) (StopEffect e) (state_of r) = ok (state_of r)"
    using ina by (simp add: inactive_def)
  have fut: "\<forall>k t r'. stopped e (state_of r) \<and> routes_only (\<lambda>e'. e' \<noteq> e) t \<and> run k t (state_of r) = Some r' \<longrightarrow>
             stopped e (state_of r') \<and> (\<forall>dep. e \<notin> set (effectsToRun (state_of r') dep))"
    by (auto dest: run_stopped simp: set_effectsToRun stopped_def inactive_def)
  from ina st again fut show ?thesis by blast
qed

theorem C7_stop_idempotent_witness:
  "0 < next_effect one_reader
   \<and> (\<exists>r. run 10 (StopEffect 0) one_reader = Some r
         \<and> inactive 0 (state_of r) \<and> stopped 0 (state_of r)
         \<and> run 5 (StopEffect 0) (state_of r) = ok (state_of r))
   \<and> events (then_run (run 10 (StopEffect 0) one_reader) 10 (Cmd (RefSet 0 (VNum (JInt 5)))))
       = Some [EvCall 0, EvBody 0]"
proof -
  have h1: "0 < next_effect one_reader" by code_simp
  have h2: "thrown (run 10 (StopEffect 0) one_reader) = Some False \<and> isActive (effects one_reader 0)"
    by code_simp
  then obtain r where r: "run 10 (StopEffect 0) one_reader = Some r" and nt: "\<not> is_thrown r"
    by (auto simp: thrown_def)
  from C7_stop_idempotent[OF h1 r, of 4] h2 nt
  have "inactive 0 (state_of r) \<and> stopped 0 (state_of r)
         \<and> run 5 (StopEffect 0) (state_of r) = ok (state_of r)"
    by simp
  with r have e: "\<exists>r. run 10 (StopEffect 0) one_reader = Some r
         \<and> inactive 0 (state_of r) \<and> stopped 0 (state_of r)
         \<and> run 5 (StopEffect 0) (state_of r) = ok (state_of r)" by blast
  have ev: "events (then_run (run 10 (StopEffect 0) one_reader) 10 (Cmd (RefSet 0 (VNum (JInt 5)))))
       = Some [EvCall 0, EvBody 0]" by code_simp
  from h1 e ev show ?thesis by (intro conjI)
qed

theorem C8_flush_catches_errors_witness:
  "(\<exists>r. run 20 (FlushLoop [0, 1]) thrower_and_reader = Some r \<and> \<not> is_thrown r
        \<and> (\<exists>evs. trace (state_of r) = trace thrower_and_reader @ evs \<and> EvCall 0 \<in> set evs \<and> EvCall 1 \<in> set evs))
   \<and> events (run 20 (FlushLoop [0, 1]) thrower_and_reader)
       = Some [EvCall 0, EvBody 0, EvCall 1, EvBody 1, EvCall 0, EvBody 0, EvConsoleError, EvCall 1, EvBody 1]
   \<and> thrown (run 20 (TriggerLoop [0, 1]) thrower_and_reader) = Some True
   \<and> events (run 20 (TriggerLoop [0, 1]) thrower_and_reader)
       = Some [EvCall 0, EvBody 0, EvCall 1, EvBody 1, EvCall 0, EvBody 0]"
proof -
  have "thrown (run 20 (FlushLoop [0, 1]) thrower_and_reader) = Some False" by code_simp
  then obtain r where r: "run 20 (FlushLoop [0, 1]) thrower_and_reader = Some r"
    by (auto simp: thrown_def)
  from C8_flush_catches_errors[of 20 "[0, 1]" thrower_and_reader r] r
  have "\<not> is_thrown r
        \<and> (\<exists>evs. trace (state_of r) = trace thrower_and_reader @ evs \<and> EvCall 0 \<in> set evs \<and> EvCall 1 \<in> set evs)"
    by auto
  with r have e: "\<exists>r. run 20 (FlushLoop [0, 1]) thrower_and_reader = Some r \<and> \<not> is_thrown r
        \<and> (\<exists>evs. trace (state_of r) = trace thrower_and_reader @ evs \<and> EvCall 0 \<in> set evs \<and> EvCall 1 \<in> set evs)"
    by blast
  have ev: "events (run 20 (FlushLoop [0, 1]) thrower_and_reader)
       = Some [EvCall 0, EvBody 0, EvCall 1, EvBody 1, EvCall 0, EvBody 0, EvConsoleError, EvCall 1, EvBody 1]
   \<and> thrown (run 20 (TriggerLoop [0, 1]) thrower_and_reader) = Some True
   \<and> events (run 20 (TriggerLoop [0, 1]) thrower_and_reader)
       = Some [EvCall 0, EvBody 0, EvCall 1, EvBody 1, EvCall 0, EvBody 0]" by code_simp
  from e ev show ?thesis by (intro conjI) simp_all
qed


end
